theory Spec2Isabelle
  imports Main "HOL-Library.AList"
begin

section \<open>JavaScript strings\<close>

text \<open>
  A JavaScript string is a sequence of UTF-16 code units; it is modelled as a \<open>string\<close>,
  one \<open>char\<close> per code unit. Every pattern, separator and character class of the code
  modelled here is ASCII, and only the ASCII range is distinguished.
\<close>

definition dquote :: char where
  "dquote = CHR 0x22"

definition backslash :: char where
  "backslash = CHR 0x5C"

definition newline :: char where
  "newline = CHR 0x0A"

definition startsWith :: "string \<Rightarrow> string \<Rightarrow> bool" where
  \<comment> \<open>\<open>s.startsWith(p)\<close>\<close>
  "startsWith s p = (take (length p) s = p)"

fun includes_str :: "string \<Rightarrow> string \<Rightarrow> bool" where
  \<comment> \<open>\<open>s.includes(sub)\<close>: \<open>sub\<close> occurs somewhere in \<open>s\<close>\<close>
  "includes_str [] sub = (sub = [])"
| "includes_str (c # cs) sub = (startsWith (c # cs) sub \<or> includes_str cs sub)"

fun split_on :: "char \<Rightarrow> string \<Rightarrow> string list" where
  \<comment> \<open>\<open>s.split(sep)\<close> for a one-character separator: one piece more than separators\<close>
  "split_on sep [] = [[]]"
| "split_on sep (c # cs) =
     (if c = sep then [] # split_on sep cs
      else (case split_on sep cs of
              p # ps \<Rightarrow> (c # p) # ps
            | [] \<Rightarrow> [[c]]))"

fun join :: "string \<Rightarrow> string list \<Rightarrow> string" where
  \<comment> \<open>\<open>items.join(sep)\<close>\<close>
  "join sep [] = []"
| "join sep [x] = x"
| "join sep (x # y # ys) = x @ sep @ join sep (y # ys)"

fun getSubstitution :: "string \<Rightarrow> string \<Rightarrow> string \<Rightarrow> string \<Rightarrow> string" where
  \<comment> \<open>The replacement text \<open>String.prototype.replace\<close> builds from its template for one
      match: \<open>$$\<close> stands for one dollar sign, \<open>$&\<close> for the matched text, \<open>$`\<close> and
      \<open>$'\<close> for the text before and after the match. No pattern used here has a capture
      group, so \<open>$1\<close> ... \<open>$99\<close> stay as they are written.\<close>
  "getSubstitution matched pre post (c # d # rest) =
     (if c = CHR ''$'' \<and> d = CHR ''$'' then CHR ''$'' # getSubstitution matched pre post rest
      else if c = CHR ''$'' \<and> d = CHR ''&'' then matched @ getSubstitution matched pre post rest
      else if c = CHR ''$'' \<and> d = CHR 0x60 then pre @ getSubstitution matched pre post rest
      else if c = CHR ''$'' \<and> d = CHR 0x27 then post @ getSubstitution matched pre post rest
      else c # getSubstitution matched pre post (d # rest))"
| "getSubstitution matched pre post t = t"

fun replaceGlobal :: "string \<Rightarrow> string \<Rightarrow> string \<Rightarrow> string \<Rightarrow> string" where
  \<comment> \<open>\<open>s.replace(/pat/g, tmpl)\<close> for a pattern that matches the literal text \<open>pat\<close>:
      matches are found left to right and do not overlap; \<open>pre\<close> is the text already
      scanned. \<open>pat\<close> is not empty at any call.\<close>
  "replaceGlobal pat tmpl pre [] = []"
| "replaceGlobal pat tmpl pre (c # cs) =
     (if pat \<noteq> [] \<and> startsWith (c # cs) pat then
        getSubstitution pat pre (drop (length pat) (c # cs)) tmpl
          @ replaceGlobal pat tmpl (pre @ pat) (drop (length pat) (c # cs))
      else c # replaceGlobal pat tmpl (pre @ [c]) cs)"

fun replaceClassGlobal :: "(char \<Rightarrow> bool) \<Rightarrow> string \<Rightarrow> string \<Rightarrow> string \<Rightarrow> string" where
  \<comment> \<open>\<open>s.replace(/[class]/g, tmpl)\<close>: every code unit in the class is one match\<close>
  "replaceClassGlobal cls tmpl pre [] = []"
| "replaceClassGlobal cls tmpl pre (c # cs) =
     (if cls c then getSubstitution [c] pre cs tmpl @ replaceClassGlobal cls tmpl (pre @ [c]) cs
      else c # replaceClassGlobal cls tmpl (pre @ [c]) cs)"

definition replaceClassAtStart :: "(char \<Rightarrow> bool) \<Rightarrow> string \<Rightarrow> string \<Rightarrow> string" where
  \<comment> \<open>\<open>s.replace(/^[class]/, tmpl)\<close>: at most one match, the first code unit\<close>
  "replaceClassAtStart cls tmpl s =
     (case s of
        [] \<Rightarrow> []
      | c # cs \<Rightarrow> if cls c then getSubstitution [c] [] cs tmpl @ cs else c # cs)"

fun replaceFirst :: "string \<Rightarrow> string \<Rightarrow> string \<Rightarrow> string \<Rightarrow> string" where
  \<comment> \<open>\<open>s.replace(pat, tmpl)\<close> for a string pattern: the first occurrence only\<close>
  "replaceFirst pat tmpl pre [] = (if pat = [] then getSubstitution [] pre [] tmpl else [])"
| "replaceFirst pat tmpl pre (c # cs) =
     (if startsWith (c # cs) pat then
        getSubstitution pat pre (drop (length pat) (c # cs)) tmpl @ drop (length pat) (c # cs)
      else c # replaceFirst pat tmpl (pre @ [c]) cs)"

definition isUpper :: "char \<Rightarrow> bool" where
  "isUpper c = (65 \<le> (of_char c :: nat) \<and> (of_char c :: nat) \<le> 90)"

definition isLower :: "char \<Rightarrow> bool" where
  "isLower c = (97 \<le> (of_char c :: nat) \<and> (of_char c :: nat) \<le> 122)"

definition isDigit :: "char \<Rightarrow> bool" where
  "isDigit c = (48 \<le> (of_char c :: nat) \<and> (of_char c :: nat) \<le> 57)"

definition lowerChar :: "char \<Rightarrow> char" where
  "lowerChar c = (if isUpper c then char_of ((of_char c :: nat) + 32) else c)"

definition toLowerCase :: "string \<Rightarrow> string" where
  \<comment> \<open>\<open>s.toLowerCase()\<close> on ASCII text; in \<open>sanitizeName\<close> it only ever sees ASCII\<close>
  "toLowerCase s = map lowerChar s"


section \<open>Resource names (core/provider.ts)\<close>

definition nameChar :: "char \<Rightarrow> bool" where
  \<comment> \<open>the character class \<open>[a-zA-Z0-9_-]\<close>\<close>
  "nameChar c = (isLower c \<or> isUpper c \<or> isDigit c \<or> c = CHR ''_'' \<or> c = CHR ''-'')"

definition sanitizeName :: "string \<Rightarrow> string" where
  \<comment> \<open>\<open>name.replace(/[^a-zA-Z0-9_-]/g, '_').replace(/^[0-9]/, '_$&').toLowerCase()\<close>\<close>
  "sanitizeName name =
     toLowerCase
       (replaceClassAtStart isDigit ''_$&''
          (replaceClassGlobal (\<lambda>c. \<not> nameChar c) ''_'' [] name))"

definition identStart :: "char \<Rightarrow> bool" where
  \<comment> \<open>the character class \<open>[_a-zA-Z]\<close>\<close>
  "identStart c = (c = CHR ''_'' \<or> isLower c \<or> isUpper c)"

definition identChar :: "char \<Rightarrow> bool" where
  \<comment> \<open>the character class \<open>[_a-zA-Z0-9-]\<close>\<close>
  "identChar c = (c = CHR ''_'' \<or> isLower c \<or> isUpper c \<or> isDigit c \<or> c = CHR ''-'')"

definition validTerraformName :: "string \<Rightarrow> bool" where
  \<comment> \<open>the string matches \<open>^[_a-zA-Z][_a-zA-Z0-9-]*$\<close>\<close>
  "validTerraformName s =
     (case s of [] \<Rightarrow> False | c # cs \<Rightarrow> identStart c \<and> list_all identChar cs)"

definition entirelyLowercase :: "string \<Rightarrow> bool" where
  \<comment> \<open>no upper-case letter occurs\<close>
  "entirelyLowercase s = list_all (\<lambda>c. \<not> isUpper c) s"


section \<open>Filter expressions (the \<open>parseFilter\<close> of the EC2, IAM, SNS and Route53 services)\<close>

datatype error = TypeError | SyntaxError

record ResourceFilter =
  serviceName :: string
  fieldPath :: string
  acceptableValues :: "string list"

definition isApplicable :: "ResourceFilter \<Rightarrow> string \<Rightarrow> bool" where
  \<comment> \<open>the closure \<open>(resourceName) => serviceName === '' || serviceName === resourceName\<close>\<close>
  "isApplicable f resourceName = (serviceName f = [] \<or> serviceName f = resourceName)"

definition parseFilter :: "string \<Rightarrow> error + ResourceFilter list" where
  \<comment> \<open>Reading a property of \<open>undefined\<close> is the only way the source can throw: the
      second piece of \<open>rawFilter.split('=')\<close> and \<open>parts[0]\<close> are read unguarded,
      \<open>parts[1]\<close> and \<open>parts[2]\<close> through \<open>?.\<close>\<close>
  "parseFilter rawFilter =
     (if \<not> includes_str rawFilter ''Name='' \<and> includes_str rawFilter ''='' then
        (case split_on CHR ''='' rawFilter of
           svc # resourcesId # _ \<Rightarrow>
             Inr [\<lparr>serviceName = svc, fieldPath = ''id'',
                   acceptableValues = split_on CHR '':'' resourcesId\<rparr>]
         | _ \<Rightarrow> Inl TypeError)
      else
        (let parts = split_on CHR '';'' rawFilter in
         if length parts \<ge> 1 then
           (case parts of
              [] \<Rightarrow> Inl TypeError
            | p0 # ps \<Rightarrow>
                (let svc = (if startsWith p0 ''Type='' then drop 5 p0 else []);
                     fld = (case ps of
                              p1 # _ \<Rightarrow> if startsWith p1 ''Name='' then drop 5 p1 else p0
                            | [] \<Rightarrow> p0);
                     vals = (case ps of
                               _ # p2 # _ \<Rightarrow>
                                 if startsWith p2 ''Value=''
                                 then Some (split_on CHR '':'' (drop 6 p2)) else None
                             | _ \<Rightarrow> None)
                 in Inr [\<lparr>serviceName = svc, fieldPath = fld,
                           acceptableValues = (case vals of Some vs \<Rightarrow> vs | None \<Rightarrow> [])\<rparr>]))
         else Inr []))"

text \<open>
  Modelled from the spec: the evaluation of a parsed filter on a resource. The source
  parses filter expressions and never evaluates one, so the rule is the one of the
  specification: a resource passes a filter iff the filter is not applicable to the
  resource's category, or the resource's value at \<open>fieldPath\<close> intersects
  \<open>acceptableValues\<close>. How the values at a field path are read from a resource is left
  open (\<open>valuesAt\<close>).
\<close>

definition spec_passesFilter ::
  "('r \<Rightarrow> string \<Rightarrow> string list) \<Rightarrow> ResourceFilter \<Rightarrow> string \<Rightarrow> 'r \<Rightarrow> bool" where
  "spec_passesFilter valuesAt f category r =
     (if isApplicable f category
      then list_ex (\<lambda>v. v \<in> set (acceptableValues f)) (valuesAt r (fieldPath f))
      else True)"


section \<open>JavaScript values and objects\<close>

text \<open>
  The values an attribute can hold (\<open>Record<string, any>\<close>). A number is modelled by an
  integer. An object is the list of its own properties in the order they were created;
  a key occurs once. Two values held by different resources never are the same object.
\<close>

datatype jsvalue =
    Undefined
  | Null
  | Str string
  | Num int
  | Bool bool
  | Arr "jsvalue list"
  | Obj "(string \<times> jsvalue) list"

type_synonym jsobj = "(string \<times> jsvalue) list"

fun truthy :: "jsvalue \<Rightarrow> bool" where
  "truthy Undefined = False"
| "truthy Null = False"
| "truthy (Str s) = (s \<noteq> [])"
| "truthy (Num n) = (n \<noteq> 0)"
| "truthy (Bool b) = b"
| "truthy (Arr xs) = True"
| "truthy (Obj kvs) = True"

fun isPrimitive :: "jsvalue \<Rightarrow> bool" where
  "isPrimitive (Arr xs) = False"
| "isPrimitive (Obj kvs) = False"
| "isPrimitive v = True"

definition strict_eq :: "jsvalue \<Rightarrow> jsvalue \<Rightarrow> bool" where
  \<comment> \<open>\<open>a === b\<close> for values of two different resources: primitives by value, objects
      and arrays by identity\<close>
  "strict_eq a b = (isPrimitive a \<and> a = b)"

definition obj_get :: "jsobj \<Rightarrow> string \<Rightarrow> jsvalue" where
  \<comment> \<open>\<open>o.k\<close>: an absent property reads as \<open>undefined\<close>\<close>
  "obj_get ob k = (case map_of ob k of None \<Rightarrow> Undefined | Some v \<Rightarrow> v)"

definition obj_set :: "string \<Rightarrow> jsvalue \<Rightarrow> jsobj \<Rightarrow> jsobj" where
  \<comment> \<open>\<open>o.k = v\<close>: an existing property keeps its place, a new one goes last\<close>
  "obj_set k v ob = AList.update k v ob"

definition obj_delete :: "string \<Rightarrow> jsobj \<Rightarrow> jsobj" where
  \<comment> \<open>\<open>delete o.k\<close>\<close>
  "obj_delete k ob = AList.delete k ob"

definition js_length :: "jsvalue \<Rightarrow> jsvalue" where
  \<comment> \<open>\<open>v.length\<close> of a value that is not \<open>null\<close> or \<open>undefined\<close>\<close>
  "js_length v =
     (case v of
        Arr xs \<Rightarrow> Num (int (length xs))
      | Str s \<Rightarrow> Num (int (length s))
      | Obj kvs \<Rightarrow> obj_get kvs ''length''
      | _ \<Rightarrow> Undefined)"

definition digitsValue :: "string \<Rightarrow> nat" where
  "digitsValue s = foldl (\<lambda>n c. 10 * n + (of_char c - 48)) 0 s"

definition isArrayIndex :: "string \<Rightarrow> bool" where
  \<comment> \<open>the key is the canonical decimal numeral of an integer below \<open>2^32 - 1\<close>\<close>
  "isArrayIndex k =
     (case k of
        [] \<Rightarrow> False
      | c # cs \<Rightarrow> list_all isDigit k \<and> (c \<noteq> CHR ''0'' \<or> cs = []) \<and> digitsValue k < 4294967295)"

definition obj_entries :: "(string \<times> 'a) list \<Rightarrow> (string \<times> 'a) list" where
  \<comment> \<open>\<open>Object.entries(o)\<close>: array-index keys first, in ascending numeric order, then
      the other keys in creation order\<close>
  "obj_entries kvs =
     sort_key (\<lambda>kv. digitsValue (fst kv)) (filter (\<lambda>kv. isArrayIndex (fst kv)) kvs)
       @ filter (\<lambda>kv. \<not> isArrayIndex (fst kv)) kvs"

definition obj_spread :: "jsobj \<Rightarrow> jsobj \<Rightarrow> jsobj" where
  \<comment> \<open>one \<open>...src\<close> of an object literal: the own properties of \<open>src\<close> are set on the
      object under construction, in enumeration order\<close>
  "obj_spread target src = fold (\<lambda>kv. obj_set (fst kv) (snd kv)) (obj_entries src) target"


section \<open>Resources (types)\<close>

record TerraformResource =
  id_res :: string
  type_res :: string
  name_res :: string
  provider :: string
  attributes :: jsobj
  dependencies :: "string list option"
  ignoreKeys :: "string list option"
  allowEmptyValues :: "string list option"
  additionalFields :: "jsobj option"

definition additionalField :: "TerraformResource \<Rightarrow> string \<Rightarrow> jsvalue" where
  \<comment> \<open>\<open>resource.additionalFields?.k\<close>\<close>
  "additionalField r k = (case additionalFields r of None \<Rightarrow> Undefined | Some a \<Rightarrow> obj_get a k)"


section \<open>The configuration renderer (core/hcl-generator.ts)\<close>

fun showNat :: "nat \<Rightarrow> string" where
  "showNat n =
     (if n < 10 then [char_of (48 + n)] else showNat (n div 10) @ [char_of (48 + n mod 10)])"

declare showNat.simps [simp del]

definition showInt :: "int \<Rightarrow> string" where
  \<comment> \<open>\<open>String(value)\<close> of an integer: its decimal numeral (JavaScript switches to the
      exponent form from \<open>10^21\<close> on)\<close>
  "showInt i = (if i < 0 then CHR ''-'' # showNat (nat (- i)) else showNat (nat i))"

definition formatHclString :: "string \<Rightarrow> string" where
  \<comment> \<open>\<open>value.replace(/"/g, '\\"').replace(/\n/g, '\\n')\<close> between double quotes\<close>
  "formatHclString s =
     dquote # replaceGlobal [newline] [backslash, CHR ''n''] []
                (replaceGlobal [dquote] [backslash, dquote] [] s) @ [dquote]"

primrec formatHclValue :: "jsvalue \<Rightarrow> string" where
  \<comment> \<open>The entries of a mapping are listed in the order of \<open>Object.entries\<close>, which
      depends on the keys only. The last case of the source, \<open>String(value)\<close> between
      double quotes, is for values that are none of these (a function, a symbol, a
      bigint); an attribute holds none.\<close>
  "formatHclValue Undefined = ''null''"
| "formatHclValue Null = ''null''"
| "formatHclValue (Str s) = formatHclString s"
| "formatHclValue (Num n) = showInt n"
| "formatHclValue (Bool b) = (if b then ''true'' else ''false'')"
| "formatHclValue (Arr xs) = ''['' @ join '', '' (map formatHclValue xs) @ '']''"
| "formatHclValue (Obj kvs) =
     ''{'' @ [newline] @ ''    ''
       @ join ('','' @ [newline] @ ''    '')
           (map (\<lambda>kt. fst kt @ '' = '' @ snd kt)
              (obj_entries (map (map_prod id formatHclValue) kvs)))
       @ [newline] @ ''  }''"

fun some_test :: "(string \<Rightarrow> string \<Rightarrow> bool option) \<Rightarrow> string list \<Rightarrow> string \<Rightarrow> error + bool" where
  \<comment> \<open>\<open>patterns.some(pattern => new RegExp(pattern).test(key))\<close>. The regular
      expression engine is a parameter: \<open>re_test pattern key\<close> is \<open>None\<close> when
      \<open>new RegExp(pattern)\<close> throws, and the result of \<open>test\<close> otherwise. \<open>some\<close>
      stops at the first pattern that matches.\<close>
  "some_test re_test [] key = Inr False"
| "some_test re_test (p # ps) key =
     (case re_test p key of
        None \<Rightarrow> Inl SyntaxError
      | Some matched \<Rightarrow> if matched then Inr True else some_test re_test ps key)"

definition opt_some_test ::
  "(string \<Rightarrow> string \<Rightarrow> bool option) \<Rightarrow> string list option \<Rightarrow> string \<Rightarrow> error + bool" where
  \<comment> \<open>\<open>patterns?.some(...)\<close>: \<open>undefined\<close>, which is falsy, when the list is absent\<close>
  "opt_some_test re_test pats key =
     (case pats of None \<Rightarrow> Inr False | Some ps \<Rightarrow> some_test re_test ps key)"

definition isEmptyValue :: "jsvalue \<Rightarrow> bool" where
  \<comment> \<open>\<open>value === null || value === undefined || value === ''\<close>\<close>
  "isEmptyValue v = (v = Null \<or> v = Undefined \<or> v = Str [])"

definition shouldIncludeAttribute ::
  "(string \<Rightarrow> string \<Rightarrow> bool option) \<Rightarrow> string \<Rightarrow> jsvalue \<Rightarrow> TerraformResource \<Rightarrow> error + bool" where
  "shouldIncludeAttribute re_test key v resource =
     (case opt_some_test re_test (ignoreKeys resource) key of
        Inl e \<Rightarrow> Inl e
      | Inr ignored \<Rightarrow>
          if ignored then Inr False
          else if isEmptyValue v then
            (case opt_some_test re_test (allowEmptyValues resource) key of
               Inl e \<Rightarrow> Inl e
             | Inr allowed \<Rightarrow> if allowed then Inr True else Inr False)
          else Inr True)"

definition allAttributes :: "TerraformResource \<Rightarrow> jsobj" where
  \<comment> \<open>\<open>{ ...resource.attributes, ...resource.additionalFields }\<close>\<close>
  "allAttributes r =
     obj_spread (obj_spread [] (attributes r))
       (case additionalFields r of None \<Rightarrow> [] | Some a \<Rightarrow> a)"

definition hclField :: "string \<Rightarrow> jsvalue \<Rightarrow> string" where
  \<comment> \<open>one line of a block: two spaces, \<open>key = value\<close>, a line break\<close>
  "hclField key v = ''  '' @ key @ '' = '' @ formatHclValue v @ [newline]"

fun hclFields ::
  "(string \<Rightarrow> string \<Rightarrow> bool option) \<Rightarrow> TerraformResource \<Rightarrow> (string \<times> jsvalue) list \<Rightarrow> error + string" where
  \<comment> \<open>the loop over the merged attributes of one resource\<close>
  "hclFields re_test r [] = Inr []"
| "hclFields re_test r (kv # rest) =
     (case shouldIncludeAttribute re_test (fst kv) (snd kv) r of
        Inl e \<Rightarrow> Inl e
      | Inr inc \<Rightarrow>
          (case hclFields re_test r rest of
             Inl e \<Rightarrow> Inl e
           | Inr text \<Rightarrow> Inr ((if inc then hclField (fst kv) (snd kv) else []) @ text)))"

definition hclHeader :: "TerraformResource \<Rightarrow> string" where
  \<comment> \<open>the first line of a block, with the type and the name between double quotes\<close>
  "hclHeader r =
     ''resource '' @ [dquote] @ type_res r @ [dquote] @ '' '' @ [dquote] @ name_res r @ [dquote]
       @ '' {'' @ [newline]"

definition hclBlock :: "(string \<Rightarrow> string \<Rightarrow> bool option) \<Rightarrow> TerraformResource \<Rightarrow> error + string" where
  "hclBlock re_test r =
     (case hclFields re_test r (obj_entries (allAttributes r)) of
        Inl e \<Rightarrow> Inl e
      | Inr body \<Rightarrow> Inr (hclHeader r @ body @ ''}'' @ [newline, newline]))"

fun hclBlocks ::
  "(string \<Rightarrow> string \<Rightarrow> bool option) \<Rightarrow> TerraformResource list \<Rightarrow> error + string list" where
  "hclBlocks re_test [] = Inr []"
| "hclBlocks re_test (r # rs) =
     (case hclBlock re_test r of
        Inl e \<Rightarrow> Inl e
      | Inr b \<Rightarrow> (case hclBlocks re_test rs of Inl e \<Rightarrow> Inl e | Inr bs \<Rightarrow> Inr (b # bs)))"

definition objectPrototypeKeys :: "string list" where
  \<comment> \<open>the keys every object inherits: \<open>grouped[key]\<close> is truthy for them before anything
      is stored, and is not an array\<close>
  "objectPrototypeKeys =
     [''__proto__'', ''constructor'', ''hasOwnProperty'', ''isPrototypeOf'',
      ''propertyIsEnumerable'', ''toLocaleString'', ''toString'', ''valueOf'',
      ''__defineGetter__'', ''__defineSetter__'', ''__lookupGetter__'', ''__lookupSetter__'']"

fun groupInto ::
  "(string \<times> TerraformResource list) list \<Rightarrow> TerraformResource list
     \<Rightarrow> error + (string \<times> TerraformResource list) list" where
  \<comment> \<open>the loop of \<open>groupResourcesByType\<close>; the key is
      \<open>resource.type.replace(`${resource.provider}_`, '')\<close>\<close>
  "groupInto grouped [] = Inr grouped"
| "groupInto grouped (r # rs) =
     (let key = replaceFirst (provider r @ ''_'') [] [] (type_res r) in
      if key \<in> set objectPrototypeKeys then Inl TypeError
      else
        (case map_of grouped key of
           None \<Rightarrow> groupInto (grouped @ [(key, [r])]) rs
         | Some members \<Rightarrow> groupInto (AList.update key (members @ [r]) grouped) rs))"

definition groupResourcesByType ::
  "TerraformResource list \<Rightarrow> error + (string \<times> TerraformResource list) list" where
  "groupResourcesByType resources = groupInto [] resources"

definition generateHclResources ::
  "(string \<Rightarrow> string \<Rightarrow> bool option) \<Rightarrow> TerraformResource list \<Rightarrow> error + string" where
  "generateHclResources re_test resources =
     (case groupResourcesByType resources of
        Inl e \<Rightarrow> Inl e
      | Inr grouped \<Rightarrow>
          (case hclBlocks re_test (concat (map snd (obj_entries grouped))) of
             Inl e \<Rightarrow> Inl e
           | Inr bs \<Rightarrow> Inr (concat bs)))"

definition renderedResources ::
  "(string \<Rightarrow> string \<Rightarrow> bool option) \<Rightarrow> TerraformResource list \<Rightarrow> TerraformResource list" where
  \<comment> \<open>the resources whose blocks make up the text \<open>generateHclResources\<close> returns, in
      the order of the blocks; none when it throws\<close>
  "renderedResources re_test resources =
     (case generateHclResources re_test resources of
        Inl e \<Rightarrow> []
      | Inr text \<Rightarrow>
          (case groupResourcesByType resources of
             Inl e \<Rightarrow> []
           | Inr grouped \<Rightarrow> concat (map snd (obj_entries grouped))))"


section \<open>The state renderer (core/hcl-generator.ts)\<close>

record StateInstance =
  schema_version :: nat
  inst_attributes :: jsobj
  sensitive_attributes :: "jsvalue list"
  private_key :: string
  inst_dependencies :: "string list"

record StateEntry =
  mode_st :: string
  type_st :: string
  name_st :: string
  provider_st :: string
  instances :: "StateInstance list"

record TerraformState =
  version_st :: nat
  terraform_version :: string
  serial :: nat
  lineage :: string
  outputs :: jsobj
  resources_st :: "StateEntry list"

definition stateEntry :: "string \<Rightarrow> TerraformResource \<Rightarrow> StateEntry" where
  "stateEntry priv resource =
     \<lparr>mode_st = ''managed'',
      type_st = type_res resource,
      name_st = name_res resource,
      provider_st = ''provider['' @ [dquote] @ ''registry.terraform.io/hashicorp/''
                      @ provider resource @ [dquote] @ '']'',
      instances =
        [\<lparr>schema_version = 0,
          inst_attributes = attributes resource,
          sensitive_attributes = [],
          private_key = priv,
          inst_dependencies = (case dependencies resource of None \<Rightarrow> [] | Some ds \<Rightarrow> ds)\<rparr>]\<rparr>"

definition generateTerraformState ::
  "string \<Rightarrow> (nat \<Rightarrow> string) \<Rightarrow> TerraformResource list \<Rightarrow> TerraformState" where
  \<comment> \<open>The state object that is written as JSON. The random lineage and the random
      private token of the \<open>i\<close>-th entry are parameters.\<close>
  "generateTerraformState lin privs resources =
     \<lparr>version_st = 4,
      terraform_version = ''1.0.0'',
      serial = 1,
      lineage = lin,
      outputs = [],
      resources_st = map (\<lambda>i. stateEntry (privs i) (resources ! i)) [0..<length resources]\<rparr>"


section \<open>Post-convert hooks (the IAM, SNS and Route53 services)\<close>

definition escapeAwsInterpolation :: "string \<Rightarrow> string" where
  \<comment> \<open>\<open>policy.replace(/\$\{/g, '$${')\<close>\<close>
  "escapeAwsInterpolation policy = replaceGlobal ''${'' ''$${'' [] policy"

definition heredoc :: "string \<Rightarrow> string" where
  \<comment> \<open>the template literal: \<open><<POLICY\<close>, a line break, the policy, a line break,
      \<open>POLICY\<close>\<close>
  "heredoc policy = ''<<POLICY'' @ [newline] @ policy @ [newline] @ ''POLICY''"

definition wrapPolicy :: "string \<Rightarrow> TerraformResource \<Rightarrow> error + TerraformResource" where
  \<comment> \<open>\<open>resource.attributes.k\<close> becomes the heredoc of
      \<open>this.escapeAwsInterpolation(resource.attributes.k)\<close>, for a truthy
      \<open>resource.attributes.k\<close>. \<open>escapeAwsInterpolation\<close> calls \<open>replace\<close>, which only a
      string has.\<close>
  "wrapPolicy k r =
     (case obj_get (attributes r) k of
        Str s \<Rightarrow>
          Inr (r\<lparr>attributes := obj_set k (Str (heredoc (escapeAwsInterpolation s))) (attributes r)\<rparr>)
      | _ \<Rightarrow> Inl TypeError)"

fun hookEach ::
  "(TerraformResource \<Rightarrow> error + TerraformResource) \<Rightarrow> TerraformResource list
     \<Rightarrow> error + TerraformResource list" where
  \<comment> \<open>\<open>for (const resource of this.resources)\<close> with a body that reads and writes this
      resource only; a throw ends the loop, and the import of the service with it\<close>
  "hookEach h [] = Inr []"
| "hookEach h (r # rs) =
     (case h r of
        Inl e \<Rightarrow> Inl e
      | Inr r' \<Rightarrow> (case hookEach h rs of Inl e \<Rightarrow> Inl e | Inr rs' \<Rightarrow> Inr (r' # rs')))"

definition IAM_policyType :: "string \<Rightarrow> bool" where
  "IAM_policyType t =
     (t = ''aws_iam_policy'' \<or> t = ''aws_iam_user_policy'' \<or> t = ''aws_iam_group_policy''
      \<or> t = ''aws_iam_role_policy'')"

definition IAM_hookResource :: "TerraformResource \<Rightarrow> error + TerraformResource" where
  "IAM_hookResource r =
     (if IAM_policyType (type_res r) then
        (if truthy (obj_get (attributes r) ''policy'') then wrapPolicy ''policy'' r else Inr r)
      else if type_res r = ''aws_iam_role'' \<and> truthy (obj_get (attributes r) ''assume_role_policy'')
        then wrapPolicy ''assume_role_policy'' r
      else if type_res r = ''aws_iam_instance_profile''
        then Inr (r\<lparr>attributes := obj_delete ''roles'' (attributes r)\<rparr>)
      else Inr r)"

definition IAM_postConvertHook :: "TerraformResource list \<Rightarrow> error + TerraformResource list" where
  "IAM_postConvertHook resources = hookEach IAM_hookResource resources"

definition SNS_hookResource :: "TerraformResource \<Rightarrow> error + TerraformResource" where
  "SNS_hookResource r =
     (if type_res r = ''aws_sns_topic'' \<and> truthy (obj_get (attributes r) ''policy'')
      then wrapPolicy ''policy'' r else Inr r)"

definition SNS_postConvertHook :: "TerraformResource list \<Rightarrow> error + TerraformResource list" where
  "SNS_postConvertHook resources = hookEach SNS_hookResource resources"

definition zoneReference :: "string \<Rightarrow> string" where
  \<comment> \<open>the template literal \<open>\${aws_route53_zone.${zoneResource.name}.zone_id}\<close>, whose
      first dollar sign is escaped\<close>
  "zoneReference zoneName = ''${aws_route53_zone.'' @ zoneName @ ''.zone_id}''"

definition findZone :: "TerraformResource list \<Rightarrow> jsvalue \<Rightarrow> TerraformResource option" where
  \<comment> \<open>the inner loop: the first zone whose \<open>additionalFields?.zone_id\<close> is the id\<close>
  "findZone rs zoneId =
     find (\<lambda>z. type_res z = ''aws_route53_zone'' \<and> strict_eq (additionalField z ''zone_id'') zoneId) rs"

definition Route53_hookRecord :: "TerraformResource list \<Rightarrow> TerraformResource \<Rightarrow> TerraformResource" where
  "Route53_hookRecord rs r =
     (let r1 = (case findZone rs (obj_get (attributes r) ''zone_id'') of
                  Some z \<Rightarrow>
                    r\<lparr>attributes := obj_set ''zone_id'' (Str (zoneReference (name_res z))) (attributes r)\<rparr>
                | None \<Rightarrow> r)
      in if truthy (additionalField r1 ''alias'')
         then r1\<lparr>attributes := obj_delete ''ttl'' (attributes r1)\<rparr> else r1)"

definition Route53_hookHealthCheck :: "TerraformResource \<Rightarrow> TerraformResource" where
  "Route53_hookHealthCheck r =
     (if \<not> truthy (additionalField r ''child_healthchecks'')
         \<or> js_length (additionalField r ''child_healthchecks'') = Num 0
      then (if truthy (additionalField r ''child_health_threshold'')
            then r\<lparr>attributes := obj_delete ''child_health_threshold'' (attributes r)\<rparr> else r)
      else r)"

definition Route53_hookResource :: "TerraformResource list \<Rightarrow> TerraformResource \<Rightarrow> TerraformResource" where
  "Route53_hookResource rs r =
     (let r1 = (if type_res r = ''aws_route53_record'' then Route53_hookRecord rs r else r)
      in if type_res r1 = ''aws_route53_health_check'' then Route53_hookHealthCheck r1 else r1)"

function Route53_loop :: "nat \<Rightarrow> TerraformResource list \<Rightarrow> TerraformResource list" where
  \<comment> \<open>the outer loop, from the \<open>i\<close>-th resource on: each resource is rewritten in place,
      and the search for its zone reads the list as it is at that moment\<close>
  "Route53_loop i rs =
     (if i < length rs then Route53_loop (Suc i) (rs[i := Route53_hookResource rs (rs ! i)])
      else rs)"
  by pat_completeness auto
termination
  by (relation "measure (\<lambda>(i, rs). length rs - i)") auto

declare Route53_loop.simps [simp del]

definition Route53_postConvertHook :: "TerraformResource list \<Rightarrow> error + TerraformResource list" where
  \<comment> \<open>no statement of the hook can throw\<close>
  "Route53_postConvertHook resources = Inr (Route53_loop 0 resources)"


section \<open>The orchestrator (core/terraformer.ts)\<close>

datatype service = EC2 | IAM | SNS | Route53 | NotImplemented

text \<open>
  \<open>NotImplemented\<close> stands for the services whose methods are stubs (Kinesis, ELB, ECS,
  ...): their \<open>parseFilter\<close> returns no predicate and their hook only logs.
\<close>

definition service_parseFilter :: "service \<Rightarrow> string \<Rightarrow> error + ResourceFilter list" where
  "service_parseFilter svc rawFilter =
     (case svc of NotImplemented \<Rightarrow> Inr [] | _ \<Rightarrow> parseFilter rawFilter)"

definition service_postConvertHook ::
  "service \<Rightarrow> TerraformResource list \<Rightarrow> error + TerraformResource list" where
  "service_postConvertHook svc resources =
     (case svc of
        EC2 \<Rightarrow> Inr resources
      | IAM \<Rightarrow> IAM_postConvertHook resources
      | SNS \<Rightarrow> SNS_postConvertHook resources
      | Route53 \<Rightarrow> Route53_postConvertHook resources
      | NotImplemented \<Rightarrow> Inr resources)"

fun applyFilters ::
  "service \<Rightarrow> TerraformResource list \<Rightarrow> string list \<Rightarrow> error + TerraformResource list" where
  \<comment> \<open>The loop parses each filter into \<open>parsedFilters\<close> and does nothing with it; the
      resources of the service are returned as the state the loop leaves.\<close>
  "applyFilters svc resources [] = Inr resources"
| "applyFilters svc resources (f # fs) =
     (case service_parseFilter svc f of
        Inl e \<Rightarrow> Inl e
      | Inr parsedFilters \<Rightarrow> applyFilters svc resources fs)"

definition importService ::
  "service \<Rightarrow> TerraformResource list \<Rightarrow> string list option \<Rightarrow> error + TerraformResource list" where
  \<comment> \<open>The body of the loop of \<open>import\<close> for one service, after \<open>initResources\<close> has
      discovered \<open>discovered\<close>: the filters are applied when \<open>options.filters\<close> is given
      and not empty, the hook runs, and \<open>getResources()\<close> is what goes on to be rendered.\<close>
  "importService svc discovered filters =
     (case (case filters of
              None \<Rightarrow> Inr discovered
            | Some fs \<Rightarrow> if length fs > 0 then applyFilters svc discovered fs else Inr discovered) of
        Inl e \<Rightarrow> Inl e
      | Inr resources \<Rightarrow> service_postConvertHook svc resources)"


section \<open>Notions used to state the properties\<close>

definition matchesAny :: "(string \<Rightarrow> string \<Rightarrow> bool option) \<Rightarrow> string list option \<Rightarrow> string \<Rightarrow> bool" where
  \<comment> \<open>the key matches a pattern of the list; an absent list has no pattern\<close>
  "matchesAny re_test pats key =
     (case pats of None \<Rightarrow> False | Some ps \<Rightarrow> list_ex (\<lambda>p. re_test p key = Some True) ps)"

definition patternsCompile :: "(string \<Rightarrow> string \<Rightarrow> bool option) \<Rightarrow> string list option \<Rightarrow> string \<Rightarrow> bool" where
  \<comment> \<open>every pattern of the list is a regular expression, so testing the key throws nothing\<close>
  "patternsCompile re_test pats key =
     (case pats of None \<Rightarrow> True | Some ps \<Rightarrow> list_all (\<lambda>p. re_test p key \<noteq> None) ps)"

definition fieldIncluded ::
  "(string \<Rightarrow> string \<Rightarrow> bool option) \<Rightarrow> TerraformResource \<Rightarrow> string \<Rightarrow> jsvalue \<Rightarrow> bool" where
  \<comment> \<open>The field inclusion policy in the words of the specification: dropped if the key
      matches a pattern of \<open>ignoreKeys\<close>; dropped if the value is null, undefined or the
      empty string and the key matches no pattern of \<open>allowEmptyValues\<close>; emitted
      otherwise.\<close>
  "fieldIncluded re_test r key v =
     (if matchesAny re_test (ignoreKeys r) key then False
      else if isEmptyValue v then matchesAny re_test (allowEmptyValues r) key
      else True)"

definition same_meta :: "TerraformResource \<Rightarrow> TerraformResource \<Rightarrow> bool" where
  \<comment> \<open>two resources agree on what the Route53 hook never writes and its search for a
      zone reads: the type, the name and the additional fields\<close>
  "same_meta a b =
     (type_res a = type_res b \<and> name_res a = name_res b \<and> additionalFields a = additionalFields b)"

definition IAM_wraps :: "TerraformResource \<Rightarrow> bool" where
  \<comment> \<open>the IAM hook rewrites a policy of this resource\<close>
  "IAM_wraps r =
     (IAM_policyType (type_res r) \<and> truthy (obj_get (attributes r) ''policy'')
      \<or> type_res r = ''aws_iam_role'' \<and> truthy (obj_get (attributes r) ''assume_role_policy''))"

definition SNS_wraps :: "TerraformResource \<Rightarrow> bool" where
  \<comment> \<open>the SNS hook rewrites the policy of this resource\<close>
  "SNS_wraps r = (type_res r = ''aws_sns_topic'' \<and> truthy (obj_get (attributes r) ''policy''))"

section \<open>Properties of objects\<close>

lemma obj_get_obj_set: "obj_get (obj_set k v ob) k' = (if k' = k then v else obj_get ob k')"
  by (simp add: obj_get_def obj_set_def update_conv')

lemma obj_get_obj_delete: "obj_get (obj_delete k ob) k' = (if k' = k then Undefined else obj_get ob k')"
  by (simp add: obj_get_def obj_delete_def delete_conv')


section \<open>Properties of names and filters\<close>

lemma split_on_nonempty: "split_on sep s \<noteq> []"
  by (induction s) (auto split: list.splits)

lemma hd_split_on: "hd (split_on sep s) = takeWhile (\<lambda>c. c \<noteq> sep) s"
  by (induction s) (auto split: list.splits simp: split_on_nonempty)

lemma split_on_chars: "p \<in> set (split_on sep s) \<Longrightarrow> set p \<subseteq> set s"
proof (induction s arbitrary: p)
  case Nil
  then show ?case by simp
next
  case (Cons c cs)
  show ?case
  proof (cases "c = sep")
    case True
    with Cons show ?thesis by auto
  next
    case False
    obtain q qs where q: "split_on sep cs = q # qs"
      using split_on_nonempty [of sep cs] by (cases "split_on sep cs") auto
    from Cons.prems False q have "p = c # q \<or> p \<in> set qs" by simp
    then show ?thesis
    proof
      assume "p = c # q"
      moreover have "set q \<subseteq> set cs" using Cons.IH [of q] q by simp
      ultimately show ?thesis by auto
    next
      assume "p \<in> set qs"
      then have "set p \<subseteq> set cs" using Cons.IH [of p] q by simp
      then show ?thesis by auto
    qed
  qed
qed

lemma startsWith_char: "startsWith s p \<Longrightarrow> set p \<subseteq> set s"
  unfolding startsWith_def by (metis set_take_subset)

lemma includes_char: "includes_str s sub \<Longrightarrow> set sub \<subseteq> set s"
proof (induction s)
  case Nil
  then show ?case by simp
next
  case (Cons c cs)
  from Cons.prems have "startsWith (c # cs) sub \<or> includes_str cs sub" by simp
  then show ?case
  proof
    assume "startsWith (c # cs) sub"
    then show ?thesis by (rule startsWith_char)
  next
    assume "includes_str cs sub"
    then have "set sub \<subseteq> set cs" by (rule Cons.IH)
    then show ?thesis by auto
  qed
qed


lemma no_equals_not_includes: "CHR ''='' \<notin> set s \<Longrightarrow> CHR ''='' \<in> set sub \<Longrightarrow> \<not> includes_str s sub"
  using includes_char [of s sub] by auto

lemma no_equals_not_startsWith: "CHR ''='' \<notin> set s \<Longrightarrow> CHR ''='' \<in> set p \<Longrightarrow> \<not> startsWith s p"
  using startsWith_char [of s p] by auto

lemma nameChar_underscore: "nameChar (CHR ''_'')"
  by (simp add: nameChar_def)

lemma replaceClassGlobal_nameChar:
  "list_all nameChar (replaceClassGlobal (\<lambda>c. \<not> nameChar c) ''_'' pre s)"
  by (induction s arbitrary: pre) (auto simp: nameChar_underscore)

lemma replaceClassAtStart_digit:
  "replaceClassAtStart isDigit ''_$&'' s =
     (case s of [] \<Rightarrow> [] | c # cs \<Rightarrow> if isDigit c then CHR ''_'' # c # cs else c # cs)"
  by (simp add: replaceClassAtStart_def split: list.splits)

lemma lowerChar_not_upper: "\<not> isUpper (lowerChar c)"
  by (auto simp: isUpper_def lowerChar_def)

lemma lowerChar_identChar: "nameChar c \<Longrightarrow> identChar (lowerChar c)"
  by (auto simp: nameChar_def identChar_def isUpper_def isLower_def isDigit_def lowerChar_def)

lemma lowerChar_identStart:
  "nameChar c \<Longrightarrow> \<not> isDigit c \<Longrightarrow> c \<noteq> CHR ''-'' \<Longrightarrow> identStart (lowerChar c)"
  by (auto simp: nameChar_def identStart_def isUpper_def isLower_def isDigit_def lowerChar_def)

lemma lowerChar_underscore: "lowerChar (CHR ''_'') = CHR ''_''"
  by (simp add: lowerChar_def isUpper_def)

lemma lowerChar_hyphen: "lowerChar (CHR ''-'') = CHR ''-''"
  by (simp add: lowerChar_def isUpper_def)

lemma not_identStart_hyphen: "\<not> identStart (CHR ''-'')"
  by (simp add: identStart_def isLower_def isUpper_def)

text \<open>The part of the sanitisation range that holds for every input: no upper-case
  letter is left.\<close>

lemma sanitizeName_lowercase: "entirelyLowercase (sanitizeName name)"
  by (simp add: entirelyLowercase_def sanitizeName_def toLowerCase_def list_all_iff
      lowerChar_not_upper)

lemma sanitized_shape:
  assumes "list_all nameChar s"
  shows "validTerraformName (toLowerCase (replaceClassAtStart isDigit ''_$&'' s))
           \<longleftrightarrow> s \<noteq> [] \<and> hd s \<noteq> CHR ''-''"
proof (cases s)
  case Nil
  then show ?thesis
    by (simp add: toLowerCase_def replaceClassAtStart_def validTerraformName_def)
next
  case (Cons c cs)
  from assms Cons have c: "nameChar c" and cs: "list_all nameChar cs" by simp_all
  from cs have tl: "list_all identChar (map lowerChar cs)"
    by (simp add: list_all_iff lowerChar_identChar)
  show ?thesis
  proof (cases "isDigit c")
    case True
    then have "c \<noteq> CHR ''-''" by (auto simp: isDigit_def)
    then show ?thesis using True tl c Cons
      by (simp add: toLowerCase_def replaceClassAtStart_digit validTerraformName_def
          lowerChar_underscore identStart_def lowerChar_identChar)
  next
    case False
    show ?thesis
    proof (cases "c = CHR ''-''")
      case True
      then show ?thesis using False Cons
        by (simp add: toLowerCase_def replaceClassAtStart_digit validTerraformName_def
            lowerChar_hyphen not_identStart_hyphen)
    next
      case nh: False
      have "identStart (lowerChar c)" using lowerChar_identStart [OF c False nh] .
      then show ?thesis using False nh tl Cons
        by (simp add: toLowerCase_def replaceClassAtStart_digit validTerraformName_def)
    qed
  qed
qed

text \<open>Exactly which names are sanitised into the pattern \<open>^[_a-zA-Z][_a-zA-Z0-9-]*$\<close>:
  all but the empty name and the names that start with a hyphen.\<close>

lemma sanitizeName_valid_iff:
  "validTerraformName (sanitizeName name) \<longleftrightarrow> name \<noteq> [] \<and> hd name \<noteq> CHR ''-''"
proof -
  let ?s = "replaceClassGlobal (\<lambda>c. \<not> nameChar c) ''_'' [] name"
  have "validTerraformName (sanitizeName name) \<longleftrightarrow> ?s \<noteq> [] \<and> hd ?s \<noteq> CHR ''-''"
    unfolding sanitizeName_def by (rule sanitized_shape) (rule replaceClassGlobal_nameChar)
  also have "\<dots> \<longleftrightarrow> name \<noteq> [] \<and> hd name \<noteq> CHR ''-''"
    by (cases name) (auto simp: nameChar_def)
  finally show ?thesis .
qed


section \<open>Claims about names and filter expressions\<close>

text \<open>
  C9. Claim: for every input string \<open>s\<close>, \<open>sanitizeName s\<close> matches
  \<open>^[_a-zA-Z][_a-zA-Z0-9-]*$\<close> and is entirely lowercase. The code handles a leading
  digit and misses a leading hyphen: the name \<open>-web\<close> (an EC2 \<open>Name\<close> tag can hold it)
  is returned as it is, lowercase, and does not match the pattern.
\<close>

theorem sanitizeName_leading_hyphen:
  "sanitizeName ''-web'' = ''-web''
   \<and> \<not> validTerraformName (sanitizeName ''-web'')
   \<and> entirelyLowercase (sanitizeName ''-web'')"
  by code_simp

text \<open>
  C7. Claim: for every input string with no \<open>=\<close> character, \<open>parseFilter\<close> returns an
  empty predicate list and never raises. The code does not raise, and it returns one
  predicate, not none: the wildcard category, the text before the first \<open>;\<close> as field
  path, and no acceptable value.
\<close>

theorem parseFilter_without_equals:
  assumes "CHR ''='' \<notin> set s"
  shows "parseFilter s =
           Inr [\<lparr>serviceName = [], fieldPath = takeWhile (\<lambda>c. c \<noteq> CHR '';'') s,
                 acceptableValues = []\<rparr>]"
proof -
  have a: "\<not> includes_str s ''=''"
    using no_equals_not_includes [OF assms, of "''=''"] by simp
  obtain p0 ps where sp: "split_on CHR '';'' s = p0 # ps"
    using split_on_nonempty [of "CHR '';''" s] by (cases "split_on CHR '';'' s") auto
  have p0: "p0 = takeWhile (\<lambda>c. c \<noteq> CHR '';'') s"
    using hd_split_on [of "CHR '';''" s] sp by simp
  have parts: "CHR ''='' \<notin> set p" if "p \<in> set (p0 # ps)" for p
    using split_on_chars [of p "CHR '';''" s] sp assms that by auto
  have t: "\<not> startsWith p0 ''Type=''"
    using no_equals_not_startsWith [OF parts, of p0 "''Type=''"] by simp
  have n: "\<not> startsWith p1 ''Name=''" if "ps = p1 # r" for p1 r
    using no_equals_not_startsWith [OF parts, of p1 "''Name=''"] that by simp
  have v: "\<not> startsWith p2 ''Value=''" if "ps = p1 # p2 # r" for p1 p2 r
    using no_equals_not_startsWith [OF parts, of p2 "''Value=''"] that by simp
  show ?thesis
    unfolding parseFilter_def using a sp t n v p0
    by (auto simp: Let_def split: list.splits)
qed

theorem parseFilter_without_equals_witness:
  "CHR ''='' \<notin> set ''instance_type;t3''
   \<and> parseFilter ''instance_type;t3'' =
       Inr [\<lparr>serviceName = [], fieldPath = ''instance_type'', acceptableValues = []\<rparr>]"
  using parseFilter_without_equals [of "''instance_type;t3''"] by simp

theorem parseFilter_without_equals_counterexample:
  "CHR ''='' \<notin> set ''foo''
   \<and> parseFilter ''foo'' = Inr [\<lparr>serviceName = [], fieldPath = ''foo'', acceptableValues = []\<rparr>]
   \<and> parseFilter ''foo'' \<noteq> Inr []"
  by code_simp

text \<open>
  C6. Claim: parsing \<open>Type=ec2;Name=instance_type\<close> (no \<open>Value=\<close> clause) yields
  exactly one predicate, with category \<open>ec2\<close>, field path \<open>instance_type\<close> and an empty
  list of acceptable values, so that under the filter-evaluation rule no value is
  accepted and every resource of category \<open>ec2\<close> is rejected by it, whatever its
  values at the field path are.
\<close>

theorem parseFilter_fail_closed:
  "parseFilter ''Type=ec2;Name=instance_type'' =
     Inr [\<lparr>serviceName = ''ec2'', fieldPath = ''instance_type'', acceptableValues = []\<rparr>]
   \<and> isApplicable
       \<lparr>serviceName = ''ec2'', fieldPath = ''instance_type'', acceptableValues = []\<rparr> ''ec2''
   \<and> \<not> spec_passesFilter valuesAt
       \<lparr>serviceName = ''ec2'', fieldPath = ''instance_type'', acceptableValues = []\<rparr> ''ec2'' r"
proof -
  have "parseFilter ''Type=ec2;Name=instance_type'' =
     Inr [\<lparr>serviceName = ''ec2'', fieldPath = ''instance_type'', acceptableValues = []\<rparr>]"
    by code_simp
  then show ?thesis
    by (simp add: spec_passesFilter_def isApplicable_def list_ex_iff)
qed

theorem parseFilter_fail_closed_witness:
  "\<not> spec_passesFilter (\<lambda>r p. [r])
       \<lparr>serviceName = ''ec2'', fieldPath = ''instance_type'', acceptableValues = []\<rparr>
       ''ec2'' ''t3.micro''"
  using parseFilter_fail_closed [of "\<lambda>r p. [r]" "''t3.micro''"] by simp


section \<open>Filters in the import of a service\<close>

lemma split_on_two: "c \<in> set s \<Longrightarrow> \<exists>a b r. split_on c s = a # b # r"
proof (induction s)
  case Nil
  then show ?case by simp
next
  case (Cons x xs)
  obtain q qs where q: "split_on c xs = q # qs"
    using split_on_nonempty [of c xs] by (cases "split_on c xs") auto
  show ?case
  proof (cases "x = c")
    case True
    then show ?thesis using q by simp
  next
    case False
    with Cons.prems have "c \<in> set xs" by simp
    then obtain a b r where "split_on c xs = a # b # r" using Cons.IH by blast
    then show ?thesis using False by simp
  qed
qed

lemma parseFilter_total: "\<exists>fs. parseFilter s = Inr fs"
proof (cases "\<not> includes_str s ''Name='' \<and> includes_str s ''=''")
  case True
  then have "CHR ''='' \<in> set s" using includes_char [of s "''=''"] by simp
  then obtain a b r where "split_on CHR ''='' s = a # b # r" using split_on_two by blast
  then show ?thesis using True by (simp add: parseFilter_def)
next
  case False
  obtain p0 ps where "split_on CHR '';'' s = p0 # ps"
    using split_on_nonempty [of "CHR '';''" s] by (cases "split_on CHR '';'' s") auto
  then show ?thesis using False by (auto simp: parseFilter_def Let_def)
qed

lemma applyFilters_noop: "applyFilters svc resources fs = Inr resources"
proof (induction fs)
  case Nil
  then show ?case by simp
next
  case (Cons f fs)
  obtain pf where "service_parseFilter svc f = Inr pf"
    using parseFilter_total [of f] by (cases svc) (auto simp: service_parseFilter_def)
  then show ?case using Cons.IH by simp
qed

lemma importService_ignores_filters:
  "importService svc discovered filters = service_postConvertHook svc discovered"
  by (simp add: importService_def applyFilters_noop split: option.splits)

text \<open>
  C1. Claim: when the caller supplies at least one filter expression, a resource to which
  a parsed filter is applicable and whose value at the filter's field path is not among
  the acceptable values is excluded from the rendered output. The code parses each
  expression and drops the result (\<open>applyFilters\<close> returns every resource, see
  \<open>importService_ignores_filters\<close>): with the filter \<open>ec2=i-1:i-2\<close>, applicable to the
  service \<open>ec2\<close>, the instance \<open>i-3\<close> is still imported and rendered.
\<close>

theorem filters_not_applied:
  "parseFilter ''ec2=i-1:i-2'' =
     Inr [\<lparr>serviceName = ''ec2'', fieldPath = ''id'', acceptableValues = [''i-1'', ''i-2'']\<rparr>]
   \<and> isApplicable
       \<lparr>serviceName = ''ec2'', fieldPath = ''id'', acceptableValues = [''i-1'', ''i-2'']\<rparr> ''ec2''
   \<and> ''i-3'' \<notin> set [''i-1'', ''i-2'']
   \<and> importService EC2
         [\<lparr>id_res = ''i-3'', type_res = ''aws_instance'', name_res = ''web'', provider = ''aws'',
           attributes = [(''instance_type'', Str ''t3.micro'')], dependencies = None,
           ignoreKeys = None, allowEmptyValues = None, additionalFields = None\<rparr>]
         (Some [''ec2=i-1:i-2'']) =
       Inr [\<lparr>id_res = ''i-3'', type_res = ''aws_instance'', name_res = ''web'', provider = ''aws'',
             attributes = [(''instance_type'', Str ''t3.micro'')], dependencies = None,
             ignoreKeys = None, allowEmptyValues = None, additionalFields = None\<rparr>]
   \<and> generateHclResources re_test
         [\<lparr>id_res = ''i-3'', type_res = ''aws_instance'', name_res = ''web'', provider = ''aws'',
           attributes = [(''instance_type'', Str ''t3.micro'')], dependencies = None,
           ignoreKeys = None, allowEmptyValues = None, additionalFields = None\<rparr>] =
       Inr (''resource '' @ dquote # ''aws_instance'' @ dquote # '' '' @ dquote # ''web'' @ dquote
              # '' {\<newline>  instance_type = '' @ dquote # ''t3.micro'' @ dquote
              # ''\<newline>}\<newline>\<newline>'')"
  by code_simp


section \<open>The field inclusion policy of the text encoding\<close>

lemma some_test_compiles:
  "list_all (\<lambda>p. re_test p key \<noteq> None) ps \<Longrightarrow>
     some_test re_test ps key = Inr (list_ex (\<lambda>p. re_test p key = Some True) ps)"
  by (induction ps) auto

lemma opt_some_test_compiles:
  "patternsCompile re_test pats key \<Longrightarrow>
     opt_some_test re_test pats key = Inr (matchesAny re_test pats key)"
  by (cases pats)
     (simp_all add: patternsCompile_def opt_some_test_def matchesAny_def some_test_compiles)

lemma shouldIncludeAttribute_policy:
  assumes "patternsCompile re_test (ignoreKeys r) key"
    and "patternsCompile re_test (allowEmptyValues r) key"
  shows "shouldIncludeAttribute re_test key v r = Inr (fieldIncluded re_test r key v)"
  using assms
  by (simp add: shouldIncludeAttribute_def fieldIncluded_def opt_some_test_compiles)

lemma hclFields_policy:
  assumes "list_all (\<lambda>kv. patternsCompile re_test (ignoreKeys r) (fst kv)
                        \<and> patternsCompile re_test (allowEmptyValues r) (fst kv)) entries"
  shows "hclFields re_test r entries =
           Inr (concat (map (\<lambda>kv. hclField (fst kv) (snd kv))
                  (filter (\<lambda>kv. fieldIncluded re_test r (fst kv) (snd kv)) entries)))"
  using assms
  by (induction entries) (simp_all add: shouldIncludeAttribute_policy)

lemma hclBlock_policy:
  assumes "list_all (\<lambda>kv. patternsCompile re_test (ignoreKeys r) (fst kv)
                        \<and> patternsCompile re_test (allowEmptyValues r) (fst kv))
             (obj_entries (allAttributes r))"
  shows "hclBlock re_test r =
           Inr (hclHeader r
                  @ concat (map (\<lambda>kv. hclField (fst kv) (snd kv))
                      (filter (\<lambda>kv. fieldIncluded re_test r (fst kv) (snd kv))
                         (obj_entries (allAttributes r))))
                  @ ''}\<newline>\<newline>'')"
  using hclFields_policy [OF assms] by (simp add: hclBlock_def newline_def)

lemma hclBlocks_single: "hclBlock re_test r = Inr b \<Longrightarrow> hclBlocks re_test [r] = Inr [b]"
  by simp

lemma example_allow_empty:
  assumes "re_test ''a'' ''a'' = Some True"
  shows "generateHclResources re_test
           [\<lparr>id_res = ''i-1'', type_res = ''aws_instance'', name_res = ''web'', provider = ''aws'',
             attributes = [(''a'', Str []), (''b'', Str ''x'')], dependencies = None,
             ignoreKeys = None, allowEmptyValues = Some [''a''], additionalFields = None\<rparr>] =
         Inr (''resource '' @ dquote # ''aws_instance'' @ dquote # '' '' @ dquote # ''web'' @ dquote
                # '' {\<newline>  a = '' @ dquote # dquote # ''\<newline>  b = '' @ dquote # ''x''
                @ dquote # ''\<newline>}\<newline>\<newline>'')"
    (is "generateHclResources re_test [?r] = Inr ?text")
proof -
  have entries: "obj_entries (allAttributes ?r) = [(''a'', Str []), (''b'', Str ''x'')]"
    by code_simp
  have a: "shouldIncludeAttribute re_test ''a'' (Str []) ?r = Inr True"
    using assms by (simp add: shouldIncludeAttribute_def opt_some_test_def isEmptyValue_def)
  have b: "shouldIncludeAttribute re_test ''b'' (Str ''x'') ?r = Inr True"
    by (simp add: shouldIncludeAttribute_def opt_some_test_def isEmptyValue_def)
  have rendered: "hclHeader ?r @ (hclField ''a'' (Str []) @ hclField ''b'' (Str ''x''))
                @ ''}'' @ [newline, newline] = ?text"
    by code_simp
  have "hclBlock re_test ?r = Inr ?text"
    unfolding hclBlock_def entries using a b rendered by simp
  then have blocks: "hclBlocks re_test [?r] = Inr [?text]"
    by (rule hclBlocks_single)
  have grouped: "groupResourcesByType [?r] = Inr [(''instance'', [?r])]"
    by code_simp
  have order: "concat (map snd (obj_entries [(''instance'', [?r])])) = [?r]"
    by code_simp
  show ?thesis
    unfolding generateHclResources_def grouped using order blocks by simp
qed

lemma example_no_allow_empty:
  "generateHclResources re_test
     [\<lparr>id_res = ''i-1'', type_res = ''aws_instance'', name_res = ''web'', provider = ''aws'',
       attributes = [(''a'', Str []), (''b'', Str ''x'')], dependencies = None,
       ignoreKeys = None, allowEmptyValues = None, additionalFields = None\<rparr>] =
   Inr (''resource '' @ dquote # ''aws_instance'' @ dquote # '' '' @ dquote # ''web'' @ dquote
          # '' {\<newline>  b = '' @ dquote # ''x'' @ dquote # ''\<newline>}\<newline>\<newline>'')"
  by code_simp

text \<open>
  C5. Claim: for every resource and every key of its merged attribute mapping, the
  text-encoding renderer drops the field if the key matches a pattern of \<open>ignoreKeys\<close>,
  drops it if the value is null, undefined or the empty string and the key matches no
  pattern of \<open>allowEmptyValues\<close>, and emits it otherwise; a resource with the attributes
  \<open>{a: "", b: "x"}\<close> and \<open>allowEmptyValues: ["a"]\<close> renders both fields, and without
  \<open>allowEmptyValues\<close> only \<open>b\<close>. The patterns are taken to be regular expressions (the
  constructor \<open>RegExp\<close> throws on any other text), and the pattern \<open>a\<close> to match the
  key \<open>a\<close>.
\<close>

theorem field_inclusion_policy:
  assumes "list_all (\<lambda>kv. patternsCompile re_test (ignoreKeys r) (fst kv)
                        \<and> patternsCompile re_test (allowEmptyValues r) (fst kv))
             (obj_entries (allAttributes r))"
    and "re_test ''a'' ''a'' = Some True"
  shows "list_all (\<lambda>kv. shouldIncludeAttribute re_test (fst kv) (snd kv) r
                          = Inr (fieldIncluded re_test r (fst kv) (snd kv)))
           (obj_entries (allAttributes r))
         \<and> hclBlock re_test r =
             Inr (hclHeader r
                    @ concat (map (\<lambda>kv. hclField (fst kv) (snd kv))
                        (filter (\<lambda>kv. fieldIncluded re_test r (fst kv) (snd kv))
                           (obj_entries (allAttributes r))))
                    @ ''}\<newline>\<newline>'')
         \<and> generateHclResources re_test
             [\<lparr>id_res = ''i-1'', type_res = ''aws_instance'', name_res = ''web'',
               provider = ''aws'', attributes = [(''a'', Str []), (''b'', Str ''x'')],
               dependencies = None, ignoreKeys = None, allowEmptyValues = Some [''a''],
               additionalFields = None\<rparr>] =
             Inr (''resource '' @ dquote # ''aws_instance'' @ dquote # '' '' @ dquote # ''web''
                    @ dquote # '' {\<newline>  a = '' @ dquote # dquote # ''\<newline>  b = ''
                    @ dquote # ''x'' @ dquote # ''\<newline>}\<newline>\<newline>'')
         \<and> generateHclResources re_test
             [\<lparr>id_res = ''i-1'', type_res = ''aws_instance'', name_res = ''web'',
               provider = ''aws'', attributes = [(''a'', Str []), (''b'', Str ''x'')],
               dependencies = None, ignoreKeys = None, allowEmptyValues = None,
               additionalFields = None\<rparr>] =
             Inr (''resource '' @ dquote # ''aws_instance'' @ dquote # '' '' @ dquote # ''web''
                    @ dquote # '' {\<newline>  b = '' @ dquote # ''x'' @ dquote
                    # ''\<newline>}\<newline>\<newline>'')"
proof -
  have "shouldIncludeAttribute re_test (fst kv) (snd kv) r
          = Inr (fieldIncluded re_test r (fst kv) (snd kv))"
    if "kv \<in> set (obj_entries (allAttributes r))" for kv
    using assms(1) that by (simp add: list_all_iff shouldIncludeAttribute_policy)
  then have "list_all (\<lambda>kv. shouldIncludeAttribute re_test (fst kv) (snd kv) r
                          = Inr (fieldIncluded re_test r (fst kv) (snd kv)))
               (obj_entries (allAttributes r))"
    by (simp add: list_all_iff)
  then show ?thesis
    using hclBlock_policy [of re_test r, OF assms(1)] example_allow_empty [of re_test, OF assms(2)]
      example_no_allow_empty [of re_test]
    by blast
qed

theorem field_inclusion_policy_witness:
  "list_all (\<lambda>kv. patternsCompile (\<lambda>p k. Some (includes_str k p)) (Some [''arn'']) (fst kv)
                 \<and> patternsCompile (\<lambda>p k. Some (includes_str k p)) (Some [''a'']) (fst kv))
      [(''a'', Str []), (''b'', Str ''x''), (''c'', Null), (''arn'', Str ''z'')]
   \<and> includes_str ''a'' ''a''
   \<and> hclBlock (\<lambda>p k. Some (includes_str k p))
       \<lparr>id_res = ''i-1'', type_res = ''aws_instance'', name_res = ''web'', provider = ''aws'',
        attributes = [(''a'', Str []), (''b'', Str ''x''), (''c'', Null)],
        dependencies = None, ignoreKeys = Some [''arn''], allowEmptyValues = Some [''a''],
        additionalFields = Some [(''arn'', Str ''z'')]\<rparr> =
     Inr (''resource '' @ dquote # ''aws_instance'' @ dquote # '' '' @ dquote # ''web'' @ dquote
            # '' {\<newline>  a = '' @ dquote # dquote # ''\<newline>  b = '' @ dquote # ''x''
            @ dquote # ''\<newline>}\<newline>\<newline>'')"
    (is "?valid \<and> ?match \<and> hclBlock ?re ?r = Inr ?out")
proof -
  have entries: "obj_entries (allAttributes ?r) =
      [(''a'', Str []), (''b'', Str ''x''), (''c'', Null), (''arn'', Str ''z'')]"
    by code_simp
  have valid: ?valid
    by code_simp
  have m: ?match
    by code_simp
  have h1: "list_all (\<lambda>kv. patternsCompile ?re (ignoreKeys ?r) (fst kv)
                         \<and> patternsCompile ?re (allowEmptyValues ?r) (fst kv))
              (obj_entries (allAttributes ?r))"
    unfolding entries using valid by simp
  have h2: "?re ''a'' ''a'' = Some True"
    using m by simp
  have out: "hclHeader ?r
               @ concat (map (\<lambda>kv. hclField (fst kv) (snd kv))
                   (filter (\<lambda>kv. fieldIncluded ?re ?r (fst kv) (snd kv))
                      (obj_entries (allAttributes ?r))))
               @ ''}\<newline>\<newline>'' = ?out"
    by code_simp
  from field_inclusion_policy [of ?re ?r, OF h1 h2] have "hclBlock ?re ?r = Inr ?out"
    unfolding out by blast
  with valid m show ?thesis by blast
qed


section \<open>Configuration blocks and state entries\<close>

lemma set_obj_entries: "set (obj_entries kvs) = set kvs"
  by (auto simp: obj_entries_def)

lemma update_entries:
  "kv \<in> set (AList.update key val g) \<Longrightarrow> kv \<in> set g \<or> kv = (key, val)"
  by (induction g) (auto split: if_splits)

lemma groupInto_members:
  assumes "groupInto g rs = Inr g'" and "(k, ms) \<in> set g'" and "x \<in> set ms"
  shows "x \<in> set rs \<or> (\<exists>k' ms'. (k', ms') \<in> set g \<and> x \<in> set ms')"
  using assms
proof (induction rs arbitrary: g)
  case Nil
  then show ?case by auto
next
  case (Cons r rs)
  let ?key = "replaceFirst (provider r @ ''_'') [] [] (type_res r)"
  from Cons.prems(1) have ok: "?key \<notin> set objectPrototypeKeys"
    by (auto simp: Let_def split: if_splits)
  show ?case
  proof (cases "map_of g ?key")
    case None
    with Cons.prems(1) ok have "groupInto (g @ [(?key, [r])]) rs = Inr g'"
      by (simp add: Let_def)
    from Cons.IH [OF this Cons.prems(2,3)] show ?thesis by auto
  next
    case (Some members)
    then have mem: "(?key, members) \<in> set g" by (rule map_of_SomeD)
    from Some Cons.prems(1) ok
    have "groupInto (AList.update ?key (members @ [r]) g) rs = Inr g'"
      by (simp add: Let_def)
    from Cons.IH [OF this Cons.prems(2,3)]
    consider "x \<in> set rs"
      | k' ms' where "(k', ms') \<in> set (AList.update ?key (members @ [r]) g)" "x \<in> set ms'"
      by blast
    then show ?thesis
    proof cases
      case 1
      then show ?thesis by simp
    next
      case 2
      from update_entries [OF 2(1)] show ?thesis
      proof
        assume "(k', ms') \<in> set g"
        with 2(2) show ?thesis by blast
      next
        assume "(k', ms') = (?key, members @ [r])"
        with 2(2) mem show ?thesis by auto
      qed
    qed
  qed
qed

lemma renderedResources_subset: "set (renderedResources re_test resources) \<subseteq> set resources"
proof
  fix x
  assume x: "x \<in> set (renderedResources re_test resources)"
  obtain grouped where g: "groupInto [] resources = Inr grouped"
    and c: "x \<in> set (concat (map snd (obj_entries grouped)))"
  proof (cases "groupInto [] resources")
    case (Inl e)
    with x show ?thesis
      by (simp add: renderedResources_def groupResourcesByType_def split: sum.splits)
  next
    case (Inr grouped)
    with x have "x \<in> set (concat (map snd (obj_entries grouped)))"
      by (simp add: renderedResources_def groupResourcesByType_def split: sum.splits)
    with Inr that show ?thesis by blast
  qed
  from c obtain k ms where "(k, ms) \<in> set grouped" "x \<in> set ms"
    by (auto simp: set_obj_entries)
  from groupInto_members [OF g this] show "x \<in> set resources" by simp
qed

text \<open>The text \<open>generateHclResources\<close> returns is made of one block for each of the
  \<open>renderedResources\<close>, in their order, and the block of a resource starts with its
  type and its name.\<close>

lemma generateHclResources_blocks:
  assumes "generateHclResources re_test resources = Inr out"
  shows "\<exists>bs. hclBlocks re_test (renderedResources re_test resources) = Inr bs \<and> out = concat bs"
  using assms
  by (auto simp: generateHclResources_def renderedResources_def split: sum.splits)

lemma hclBlock_header: "hclBlock re_test r = Inr b \<Longrightarrow> startsWith b (hclHeader r)"
  by (auto simp: hclBlock_def startsWith_def split: sum.splits)

lemma hclBlocks_headers:
  "hclBlocks re_test rs = Inr bs \<Longrightarrow> list_all2 (\<lambda>r b. startsWith b (hclHeader r)) rs bs"
proof (induction rs arbitrary: bs)
  case Nil
  then show ?case by simp
next
  case (Cons r rs)
  then show ?case by (auto split: sum.splits simp: hclBlock_header)
qed

lemma filter_indices:
  "length (filter (\<lambda>i. Q (xs ! i)) [0..<length xs]) = length (filter Q xs)"
proof -
  have "filter Q xs = filter Q (map (\<lambda>i. xs ! i) [0..<length xs])"
    by (simp add: map_nth)
  also have "\<dots> = map (\<lambda>i. xs ! i) (filter (\<lambda>i. Q (xs ! i)) [0..<length xs])"
    by (simp add: filter_map comp_def)
  finally show ?thesis by (metis length_map)
qed

lemma distinct_key_once:
  assumes "distinct (map f xs)" and "x \<in> set xs"
  shows "length (filter (\<lambda>y. f y = f x) xs) = 1"
  using assms
proof (induction xs)
  case Nil
  then show ?case by simp
next
  case (Cons a xs)
  show ?case
  proof (cases "f a = f x")
    case True
    with Cons.prems have "\<forall>y \<in> set xs. f y \<noteq> f x" by (metis distinct.simps(2) image_eqI list.simps(9) set_map)
    then have "filter (\<lambda>y. f y = f x) xs = []" by (simp add: filter_empty_conv)
    with True show ?thesis by simp
  next
    case False
    with Cons.prems have "x \<in> set xs" by auto
    with Cons False show ?thesis by simp
  qed
qed

lemma groupResourcesByType_parts:
  assumes "groupResourcesByType resources = Inr grouped"
    and "(k, part) \<in> set (obj_entries grouped)"
  shows "set part \<subseteq> set resources"
proof
  fix x
  assume "x \<in> set part"
  with assms groupInto_members [of "[]" resources grouped k part x]
  show "x \<in> set resources"
    by (simp add: groupResourcesByType_def set_obj_entries)
qed

text \<open>
  C2. Claim: for a resource list whose (type, name) pairs are unique, and for every
  resource the configuration renderer emits as a block under (type, name), the state
  document produced over the same list has exactly one entry with that type and name.
  The configuration text is rendered from the list itself (one file for all types) or
  from one of its per-type groups (one file per type, see
  \<open>groupResourcesByType_parts\<close>): from a \<open>part\<close> of the list.
\<close>

theorem config_state_name_parity:
  assumes "distinct (map (\<lambda>r. (type_res r, name_res r)) resources)"
    and "set part \<subseteq> set resources"
    and "r \<in> set (renderedResources re_test part)"
  shows "length (filter (\<lambda>e. type_st e = type_res r \<and> name_st e = name_res r)
                   (resources_st (generateTerraformState lin privs resources))) = 1"
proof -
  from assms(2,3) have r: "r \<in> set resources"
    using renderedResources_subset by blast
  have "length (filter (\<lambda>e. type_st e = type_res r \<and> name_st e = name_res r)
                  (resources_st (generateTerraformState lin privs resources)))
        = length (filter (\<lambda>i. (type_res (resources ! i), name_res (resources ! i))
                                 = (type_res r, name_res r)) [0..<length resources])"
    by (simp add: generateTerraformState_def stateEntry_def filter_map comp_def)
  also have "\<dots> = length (filter (\<lambda>y. (type_res y, name_res y) = (type_res r, name_res r))
                             resources)"
    by (rule filter_indices)
  also have "\<dots> = 1"
    using distinct_key_once [OF assms(1) r] .
  finally show ?thesis .
qed

theorem config_state_name_parity_witness:
  "distinct (map (\<lambda>r. (type_res r, name_res r))
      [\<lparr>id_res = ''Z1'', type_res = ''aws_route53_zone'', name_res = ''z1_example_com'',
        provider = ''aws'', attributes = [(''name'', Str ''example.com.'')],
        dependencies = None, ignoreKeys = None, allowEmptyValues = None,
        additionalFields = None\<rparr>,
       \<lparr>id_res = ''i-1'', type_res = ''aws_instance'', name_res = ''web'', provider = ''aws'',
        attributes = [(''ami'', Str ''ami-1'')], dependencies = Some [''aws_vpc.main''],
        ignoreKeys = None, allowEmptyValues = None, additionalFields = None\<rparr>])
   \<and> \<lparr>id_res = ''i-1'', type_res = ''aws_instance'', name_res = ''web'', provider = ''aws'',
        attributes = [(''ami'', Str ''ami-1'')], dependencies = Some [''aws_vpc.main''],
        ignoreKeys = None, allowEmptyValues = None, additionalFields = None\<rparr>
       \<in> set (renderedResources (\<lambda>p k. None)
           [\<lparr>id_res = ''Z1'', type_res = ''aws_route53_zone'', name_res = ''z1_example_com'',
             provider = ''aws'', attributes = [(''name'', Str ''example.com.'')],
             dependencies = None, ignoreKeys = None, allowEmptyValues = None,
             additionalFields = None\<rparr>,
            \<lparr>id_res = ''i-1'', type_res = ''aws_instance'', name_res = ''web'', provider = ''aws'',
             attributes = [(''ami'', Str ''ami-1'')], dependencies = Some [''aws_vpc.main''],
             ignoreKeys = None, allowEmptyValues = None, additionalFields = None\<rparr>])
   \<and> length (filter (\<lambda>e. type_st e = ''aws_instance'' \<and> name_st e = ''web'')
         (resources_st (generateTerraformState ''lineage'' (\<lambda>i. ''token'')
            [\<lparr>id_res = ''Z1'', type_res = ''aws_route53_zone'', name_res = ''z1_example_com'',
              provider = ''aws'', attributes = [(''name'', Str ''example.com.'')],
              dependencies = None, ignoreKeys = None, allowEmptyValues = None,
              additionalFields = None\<rparr>,
             \<lparr>id_res = ''i-1'', type_res = ''aws_instance'', name_res = ''web'',
              provider = ''aws'', attributes = [(''ami'', Str ''ami-1'')],
              dependencies = Some [''aws_vpc.main''], ignoreKeys = None,
              allowEmptyValues = None, additionalFields = None\<rparr>]))) = 1"
    (is "distinct (map ?key ?rs) \<and> ?r \<in> set (renderedResources ?re ?rs) \<and> ?once")
proof -
  have d: "distinct (map ?key ?rs)"
    by simp
  have m: "?r \<in> set (renderedResources ?re ?rs)"
    by code_simp
  have p: "set ?rs \<subseteq> set ?rs"
    by (rule subset_refl)
  from config_state_name_parity [of ?rs ?rs ?r ?re "''lineage''" "\<lambda>i. ''token''", OF d p m]
  have ?once by simp
  with d m show ?thesis by blast
qed


section \<open>Policy documents and the text encoding\<close>

lemma replaceGlobal_escape_id: "replaceGlobal ''${'' ''$${'' pre s = s"
proof (induction "''${''" "''$${''" pre s rule: replaceGlobal.induct)
  case (1 pre)
  then show ?case by simp
next
  case (2 pre c cs)
  show ?case
  proof (cases "startsWith (c # cs) ''${''")
    case True
    then obtain rest where cs: "c = CHR ''$''" "cs = CHR ''{'' # rest"
      by (cases cs) (auto simp: startsWith_def)
    with 2 True show ?thesis by simp
  next
    case False
    with 2 show ?thesis by simp
  qed
qed

text \<open>In a replacement template \<open>$$\<close> stands for one dollar sign, so the template
  \<open>$${\<close> puts back the \<open>${\<close> it replaces: the escape returns its argument.\<close>

lemma escapeAwsInterpolation_id: "escapeAwsInterpolation policy = policy"
  by (simp add: escapeAwsInterpolation_def replaceGlobal_escape_id)

text \<open>
  C4. Claim: after the hook has run and the resource is serialised by the text encoding,
  every \<open>${\<close> of the original policy appears as \<open>$${\<close>, and the policy stands in a
  verbatim block, unescaped and multi-line, not in a quoted single-line string with
  escaped line breaks. For the role policy \<open>${aws:SourceIp}\<close> the code does neither: the
  hook leaves \<open>${\<close> as it is, and the renderer writes the wrapped text between double
  quotes on one line, each line break as a backslash and \<open>n\<close>.
\<close>

theorem policy_rendered_as_quoted_string:
  "IAM_postConvertHook
     [\<lparr>id_res = ''app'', type_res = ''aws_iam_role'', name_res = ''app'', provider = ''aws'',
       attributes = [(''name'', Str ''app''), (''assume_role_policy'', Str ''${aws:SourceIp}'')],
       dependencies = None, ignoreKeys = None, allowEmptyValues = None,
       additionalFields = None\<rparr>] =
   Inr [\<lparr>id_res = ''app'', type_res = ''aws_iam_role'', name_res = ''app'', provider = ''aws'',
         attributes = [(''name'', Str ''app''),
                       (''assume_role_policy'',
                        Str ''<<POLICY\<newline>${aws:SourceIp}\<newline>POLICY'')],
         dependencies = None, ignoreKeys = None, allowEmptyValues = None,
         additionalFields = None\<rparr>]
   \<and> generateHclResources re_test
       [\<lparr>id_res = ''app'', type_res = ''aws_iam_role'', name_res = ''app'', provider = ''aws'',
         attributes = [(''name'', Str ''app''),
                       (''assume_role_policy'',
                        Str ''<<POLICY\<newline>${aws:SourceIp}\<newline>POLICY'')],
         dependencies = None, ignoreKeys = None, allowEmptyValues = None,
         additionalFields = None\<rparr>] =
     Inr (''resource '' @ dquote # ''aws_iam_role'' @ dquote # '' '' @ dquote # ''app'' @ dquote
            # '' {\<newline>  name = '' @ dquote # ''app'' @ dquote
            # ''\<newline>  assume_role_policy = '' @ dquote # ''<<POLICY'' @ backslash
            # ''n${aws:SourceIp}'' @ backslash # ''nPOLICY'' @ dquote
            # ''\<newline>}\<newline>\<newline>'')"
  by code_simp


section \<open>Zone references (the Route53 hook)\<close>

lemma Route53_hookResource_meta: "same_meta (Route53_hookResource rs r) r"
  by (simp add: same_meta_def Route53_hookResource_def Route53_hookRecord_def
      Route53_hookHealthCheck_def additionalField_def Let_def split: option.splits)

lemma same_meta_refl: "same_meta r r"
  by (simp add: same_meta_def)

lemma findZone_meta:
  "list_all2 same_meta cur rs \<Longrightarrow>
     map_option name_res (findZone cur zoneId) = map_option name_res (findZone rs zoneId)"
proof (induction rule: list_all2_induct)
  case Nil
  then show ?case by (simp add: findZone_def)
next
  case (Cons a as b bs)
  then show ?case
    by (auto simp: findZone_def same_meta_def additionalField_def)
qed

lemma Route53_hookRecord_name:
  "Route53_hookRecord rs r =
     (let r1 = (case map_option name_res (findZone rs (obj_get (attributes r) ''zone_id'')) of
                  Some n \<Rightarrow> r\<lparr>attributes := obj_set ''zone_id'' (Str (zoneReference n)) (attributes r)\<rparr>
                | None \<Rightarrow> r)
      in if truthy (additionalField r1 ''alias'')
         then r1\<lparr>attributes := obj_delete ''ttl'' (attributes r1)\<rparr> else r1)"
  by (simp add: Route53_hookRecord_def split: option.splits)

lemma Route53_hookResource_meta_cong:
  "list_all2 same_meta cur rs \<Longrightarrow> Route53_hookResource cur r = Route53_hookResource rs r"
  by (simp add: Route53_hookResource_def Route53_hookRecord_name findZone_meta)

lemma Route53_loop_map:
  assumes "i \<le> length rs"
  shows "Route53_loop i (map (Route53_hookResource rs) (take i rs) @ drop i rs)
           = map (Route53_hookResource rs) rs"
  using assms
proof (induction "length rs - i" arbitrary: i)
  case 0
  then show ?case by (simp add: Route53_loop.simps)
next
  case (Suc n)
  let ?H = "Route53_hookResource rs"
  let ?cur = "map ?H (take i rs) @ drop i rs"
  from Suc have i: "i < length rs" by simp
  have meta: "list_all2 same_meta ?cur rs"
  proof -
    have "list_all2 same_meta (map ?H (take i rs) @ drop i rs) (take i rs @ drop i rs)"
      by (intro list_all2_appendI)
         (simp_all add: list_all2_conv_all_nth Route53_hookResource_meta same_meta_refl)
    then show ?thesis by simp
  qed
  have at: "?cur ! i = rs ! i"
    using i by (simp add: nth_append)
  have step: "?cur[i := Route53_hookResource ?cur (?cur ! i)]
                = map ?H (take (Suc i) rs) @ drop (Suc i) rs"
  proof -
    have "?cur[i := Route53_hookResource ?cur (?cur ! i)] = ?cur[i := ?H (rs ! i)]"
      using at Route53_hookResource_meta_cong [OF meta] by simp
    also have "\<dots> = map ?H (take i rs) @ (drop i rs)[0 := ?H (rs ! i)]"
      using i by (simp add: list_update_append)
    also have "(drop i rs)[0 := ?H (rs ! i)] = ?H (rs ! i) # drop (Suc i) rs"
      using i by (simp add: Cons_nth_drop_Suc [symmetric])
    finally show ?thesis
      using i by (simp add: take_Suc_conv_app_nth)
  qed
  have len: "i < length ?cur" using i by simp
  have "Route53_loop i ?cur = Route53_loop (Suc i) (map ?H (take (Suc i) rs) @ drop (Suc i) rs)"
    using len step by (subst Route53_loop.simps) (simp del: length_append length_map length_take length_drop)
  also have "\<dots> = map ?H rs"
    using Suc(1) [of "Suc i"] Suc(2) i by simp
  finally show ?case .
qed

text \<open>The hook rewrites each resource by itself, the zones being looked up in the list
  as it was discovered.\<close>

lemma Route53_postConvertHook_map:
  "Route53_postConvertHook resources = Inr (map (Route53_hookResource resources) resources)"
  using Route53_loop_map [of 0 resources] by (simp add: Route53_postConvertHook_def)

lemma find_first_match:
  assumes "z \<in> set xs" and "P z"
  shows "\<exists>z'. find P xs = Some z' \<and> z' \<in> set xs \<and> P z'"
  using assms by (induction xs) auto

text \<open>
  C3. Claim: in a resource set with a Route53 zone of native zone id \<open>Z\<close> and a Route53
  record whose \<open>zone_id\<close> attribute is literally \<open>Z\<close>, after the hook the record's
  \<open>zone_id\<close> attribute is the reference \<open>${aws_route53_zone.<zone-resource-name>.zone_id}\<close>;
  a record whose \<open>zone_id\<close> matches no zone of the set keeps its literal value, and the
  hook does not fail. The zone's native id is the one the hook compares, the
  \<open>zone_id\<close> of its additional fields; the zones that carry the id \<open>Z\<close> have one name.
\<close>

theorem zone_id_rewritten_to_reference:
  assumes "i < length resources"
    and "type_res (resources ! i) = ''aws_route53_record''"
  shows "\<exists>out. Route53_postConvertHook resources = Inr out \<and> length out = length resources
     \<and> (\<forall>zoneId z.
            obj_get (attributes (resources ! i)) ''zone_id'' = Str zoneId
            \<and> z \<in> set resources \<and> type_res z = ''aws_route53_zone''
            \<and> additionalField z ''zone_id'' = Str zoneId
            \<and> (\<forall>z' \<in> set resources.
                   type_res z' = ''aws_route53_zone'' \<and> additionalField z' ''zone_id'' = Str zoneId
                   \<longrightarrow> name_res z' = name_res z)
            \<longrightarrow> obj_get (attributes (out ! i)) ''zone_id''
                  = Str (''${aws_route53_zone.'' @ name_res z @ ''.zone_id}''))
     \<and> ((\<forall>z \<in> set resources.
              \<not> (type_res z = ''aws_route53_zone''
                   \<and> strict_eq (additionalField z ''zone_id'')
                         (obj_get (attributes (resources ! i)) ''zone_id'')))
          \<longrightarrow> obj_get (attributes (out ! i)) ''zone_id''
                = obj_get (attributes (resources ! i)) ''zone_id'')"
proof -
  let ?r = "resources ! i"
  let ?out = "map (Route53_hookResource resources) resources"
  let ?P = "\<lambda>v z. type_res z = ''aws_route53_zone'' \<and> strict_eq (additionalField z ''zone_id'') v"
  have hook: "Route53_postConvertHook resources = Inr ?out"
    by (rule Route53_postConvertHook_map)
  have at: "?out ! i = Route53_hookRecord resources ?r"
    using assms by (simp add: Route53_hookResource_def Route53_hookRecord_def Let_def
        split: option.splits)
  have hit: "obj_get (attributes (?out ! i)) ''zone_id''
               = Str (''${aws_route53_zone.'' @ name_res z @ ''.zone_id}'')"
    if v: "obj_get (attributes ?r) ''zone_id'' = Str zoneId"
      and z: "z \<in> set resources" "type_res z = ''aws_route53_zone''"
        "additionalField z ''zone_id'' = Str zoneId"
      and one: "\<forall>z' \<in> set resources.
                 type_res z' = ''aws_route53_zone'' \<and> additionalField z' ''zone_id'' = Str zoneId
                 \<longrightarrow> name_res z' = name_res z"
    for zoneId z
  proof -
    from z have "?P (Str zoneId) z" by (simp add: strict_eq_def)
    from find_first_match [of z resources "?P (Str zoneId)", OF z(1) this]
    obtain z' where f: "findZone resources (Str zoneId) = Some z'"
      and z': "z' \<in> set resources" "?P (Str zoneId) z'"
      by (auto simp: findZone_def)
    from z'(2) have "additionalField z' ''zone_id'' = Str zoneId"
      by (simp add: strict_eq_def)
    with one z' have "name_res z' = name_res z" by blast
    with f v at show ?thesis
      by (simp add: Route53_hookRecord_def zoneReference_def obj_get_obj_set
          obj_get_obj_delete Let_def)
  qed
  have miss: "obj_get (attributes (?out ! i)) ''zone_id'' = obj_get (attributes ?r) ''zone_id''"
    if none: "\<forall>z \<in> set resources. \<not> ?P (obj_get (attributes ?r) ''zone_id'') z"
  proof -
    from none have "findZone resources (obj_get (attributes ?r) ''zone_id'') = None"
      by (simp add: findZone_def find_None_iff)
    with at show ?thesis
      by (simp add: Route53_hookRecord_def obj_get_obj_delete Let_def)
  qed
  have len: "length ?out = length resources"
    by simp
  show ?thesis
  proof (intro exI [of _ ?out] conjI allI impI)
    show "Route53_postConvertHook resources = Inr ?out"
      by (rule hook)
    show "length ?out = length resources"
      by (rule len)
  next
    fix zoneId z
    assume "obj_get (attributes ?r) ''zone_id'' = Str zoneId
            \<and> z \<in> set resources \<and> type_res z = ''aws_route53_zone''
            \<and> additionalField z ''zone_id'' = Str zoneId
            \<and> (\<forall>z' \<in> set resources.
                   type_res z' = ''aws_route53_zone'' \<and> additionalField z' ''zone_id'' = Str zoneId
                   \<longrightarrow> name_res z' = name_res z)"
    then show "obj_get (attributes (?out ! i)) ''zone_id''
                 = Str (''${aws_route53_zone.'' @ name_res z @ ''.zone_id}'')"
      using hit [of zoneId z] by blast
  next
    assume "\<forall>z \<in> set resources.
              \<not> (type_res z = ''aws_route53_zone''
                   \<and> strict_eq (additionalField z ''zone_id'')
                         (obj_get (attributes ?r) ''zone_id''))"
    then show "obj_get (attributes (?out ! i)) ''zone_id'' = obj_get (attributes ?r) ''zone_id''"
      by (rule miss)
  qed
qed

theorem zone_id_rewritten_to_reference_witness:
  "(\<exists>out. Route53_postConvertHook
       [\<lparr>id_res = ''Z123'', type_res = ''aws_route53_zone'', name_res = ''z123_example_com'',
         provider = ''aws'', attributes = [(''name'', Str ''example.com.'')],
         dependencies = None, ignoreKeys = None, allowEmptyValues = None,
         additionalFields = Some [(''zone_id'', Str ''Z123'')]\<rparr>,
        \<lparr>id_res = ''Z123_a.example.com._A_'', type_res = ''aws_route53_record'',
         name_res = ''z123_a_example_com__a_'', provider = ''aws'',
         attributes = [(''name'', Str ''a.example.com''), (''zone_id'', Str ''Z123'')],
         dependencies = None, ignoreKeys = None, allowEmptyValues = None,
         additionalFields = Some [(''ttl'', Num 300)]\<rparr>,
        \<lparr>id_res = ''Z999_b.example.org._A_'', type_res = ''aws_route53_record'',
         name_res = ''z999_b_example_org__a_'', provider = ''aws'',
         attributes = [(''name'', Str ''b.example.org''), (''zone_id'', Str ''Z999'')],
         dependencies = None, ignoreKeys = None, allowEmptyValues = None,
         additionalFields = Some [(''ttl'', Num 60)]\<rparr>] = Inr out
     \<and> obj_get (attributes (out ! 1)) ''zone_id''
         = Str ''${aws_route53_zone.z123_example_com.zone_id}''
     \<and> obj_get (attributes (out ! 2)) ''zone_id'' = Str ''Z999'')"
    (is "\<exists>out. Route53_postConvertHook ?rs = Inr out \<and> ?hit out \<and> ?miss out")
proof -
  let ?zone = "?rs ! 0"
  have l1: "1 < length ?rs" and l2: "2 < length ?rs"
    by simp_all
  have t1: "type_res (?rs ! 1) = ''aws_route53_record''"
    and t2: "type_res (?rs ! 2) = ''aws_route53_record''"
    by simp_all
  from zone_id_rewritten_to_reference [of 1 ?rs, OF l1 t1]
  obtain out where out: "Route53_postConvertHook ?rs = Inr out"
    and rewritten: "\<And>zoneId z.
        obj_get (attributes (?rs ! 1)) ''zone_id'' = Str zoneId
        \<and> z \<in> set ?rs \<and> type_res z = ''aws_route53_zone''
        \<and> additionalField z ''zone_id'' = Str zoneId
        \<and> (\<forall>z' \<in> set ?rs.
               type_res z' = ''aws_route53_zone'' \<and> additionalField z' ''zone_id'' = Str zoneId
               \<longrightarrow> name_res z' = name_res z)
        \<Longrightarrow> obj_get (attributes (out ! 1)) ''zone_id''
              = Str (''${aws_route53_zone.'' @ name_res z @ ''.zone_id}'')"
    by blast
  have "obj_get (attributes (?rs ! 1)) ''zone_id'' = Str ''Z123''
        \<and> ?zone \<in> set ?rs \<and> type_res ?zone = ''aws_route53_zone''
        \<and> additionalField ?zone ''zone_id'' = Str ''Z123''
        \<and> (\<forall>z' \<in> set ?rs.
               type_res z' = ''aws_route53_zone'' \<and> additionalField z' ''zone_id'' = Str ''Z123''
               \<longrightarrow> name_res z' = name_res ?zone)"
    by (simp add: obj_get_def additionalField_def)
  from rewritten [OF this] have hit: "?hit out"
    by simp
  from zone_id_rewritten_to_reference [of 2 ?rs, OF l2 t2] out
  have kept: "(\<forall>z \<in> set ?rs.
              \<not> (type_res z = ''aws_route53_zone''
                   \<and> strict_eq (additionalField z ''zone_id'')
                         (obj_get (attributes (?rs ! 2)) ''zone_id'')))
          \<Longrightarrow> obj_get (attributes (out ! 2)) ''zone_id''
                = obj_get (attributes (?rs ! 2)) ''zone_id''"
    by auto
  have "\<forall>z \<in> set ?rs.
          \<not> (type_res z = ''aws_route53_zone''
               \<and> strict_eq (additionalField z ''zone_id'')
                     (obj_get (attributes (?rs ! 2)) ''zone_id''))"
    by (simp add: obj_get_def additionalField_def strict_eq_def)
  from kept [OF this] have miss: "?miss out"
    by (simp add: obj_get_def)
  from out hit miss show ?thesis by blast
qed

text \<open>
  C10. Claim: for every Route53 record that has an alias, after the hook has run the
  rendered configuration of the record has no TTL field. The hook deletes
  \<open>attributes.ttl\<close>; the loader stores the TTL in \<open>additionalFields.ttl\<close>, which the
  renderer merges over the attributes. A record with an alias and the TTL 300 is left as
  it is by the hook, and its block has the line \<open>ttl = 300\<close>.
\<close>

theorem alias_record_keeps_ttl:
  "truthy (additionalField
      \<lparr>id_res = ''Z123_a.example.com._A_'', type_res = ''aws_route53_record'',
       name_res = ''z123_a_example_com__a_'', provider = ''aws'',
       attributes = [(''name'', Str ''a.example.com''), (''zone_id'', Str ''Z123''),
                     (''type'', Str ''A'')],
       dependencies = None, ignoreKeys = None, allowEmptyValues = None,
       additionalFields =
         Some [(''ttl'', Num 300), (''alias'', Obj [(''name'', Str ''lb.example.com'')])]\<rparr>
      ''alias'')
   \<and> Route53_postConvertHook
       [\<lparr>id_res = ''Z123_a.example.com._A_'', type_res = ''aws_route53_record'',
         name_res = ''z123_a_example_com__a_'', provider = ''aws'',
         attributes = [(''name'', Str ''a.example.com''), (''zone_id'', Str ''Z123''),
                       (''type'', Str ''A'')],
         dependencies = None, ignoreKeys = None, allowEmptyValues = None,
         additionalFields =
           Some [(''ttl'', Num 300), (''alias'', Obj [(''name'', Str ''lb.example.com'')])]\<rparr>] =
     Inr [\<lparr>id_res = ''Z123_a.example.com._A_'', type_res = ''aws_route53_record'',
           name_res = ''z123_a_example_com__a_'', provider = ''aws'',
           attributes = [(''name'', Str ''a.example.com''), (''zone_id'', Str ''Z123''),
                         (''type'', Str ''A'')],
           dependencies = None, ignoreKeys = None, allowEmptyValues = None,
           additionalFields =
             Some [(''ttl'', Num 300), (''alias'', Obj [(''name'', Str ''lb.example.com'')])]\<rparr>]
   \<and> generateHclResources re_test
       [\<lparr>id_res = ''Z123_a.example.com._A_'', type_res = ''aws_route53_record'',
         name_res = ''z123_a_example_com__a_'', provider = ''aws'',
         attributes = [(''name'', Str ''a.example.com''), (''zone_id'', Str ''Z123''),
                       (''type'', Str ''A'')],
         dependencies = None, ignoreKeys = None, allowEmptyValues = None,
         additionalFields =
           Some [(''ttl'', Num 300), (''alias'', Obj [(''name'', Str ''lb.example.com'')])]\<rparr>] =
     Inr (''resource '' @ dquote # ''aws_route53_record'' @ dquote # '' '' @ dquote
            # ''z123_a_example_com__a_'' @ dquote
            # '' {\<newline>  name = '' @ dquote # ''a.example.com'' @ dquote
            # ''\<newline>  zone_id = '' @ dquote # ''Z123'' @ dquote
            # ''\<newline>  type = '' @ dquote # ''A'' @ dquote
            # ''\<newline>  ttl = 300\<newline>  alias = {\<newline>    name = '' @ dquote
            # ''lb.example.com'' @ dquote # ''\<newline>  }\<newline>}\<newline>\<newline>'')"
  by code_simp


section \<open>Invoking a hook twice\<close>

lemma heredoc_neq: "heredoc s \<noteq> s"
proof
  assume "heredoc s = s"
  then have "length (heredoc s) = length s" by simp
  then show False by (simp add: heredoc_def)
qed

lemma heredoc_nonempty: "heredoc s \<noteq> []"
  by (simp add: heredoc_def)

lemma wrapPolicy_Inr:
  "wrapPolicy k r = Inr r' \<Longrightarrow>
     \<exists>s. obj_get (attributes r) k = Str s
         \<and> r' = r\<lparr>attributes := obj_set k (Str (heredoc s)) (attributes r)\<rparr>"
  by (auto simp: wrapPolicy_def escapeAwsInterpolation_id split: jsvalue.splits)

text \<open>A wrapped policy is wrapped again: the second result differs from the first.\<close>

lemma wrapPolicy_twice:
  assumes "wrapPolicy k r = Inr r'"
  shows "\<exists>r''. wrapPolicy k r' = Inr r'' \<and> r'' \<noteq> r'
           \<and> type_res r' = type_res r \<and> truthy (obj_get (attributes r') k)"
proof -
  from wrapPolicy_Inr [OF assms] obtain s where s: "obj_get (attributes r) k = Str s"
    and r': "r' = r\<lparr>attributes := obj_set k (Str (heredoc s)) (attributes r)\<rparr>"
    by blast
  let ?r'' = "r'\<lparr>attributes := obj_set k (Str (heredoc (heredoc s))) (attributes r')\<rparr>"
  have get: "obj_get (attributes r') k = Str (heredoc s)"
    using r' by (simp add: obj_get_obj_set)
  then have w: "wrapPolicy k r' = Inr ?r''"
    by (simp add: wrapPolicy_def escapeAwsInterpolation_id)
  have "?r'' \<noteq> r'"
  proof
    assume "?r'' = r'"
    then have "obj_get (attributes ?r'') k = obj_get (attributes r') k"
      by (rule arg_cong)
    with get have "heredoc (heredoc s) = heredoc s"
      by (simp add: obj_get_obj_set)
    then show False
      using heredoc_neq by blast
  qed
  with w get r' show ?thesis
    by (simp add: heredoc_nonempty)
qed

lemma IAM_hookResource_twice:
  assumes "IAM_hookResource r = Inr r'"
  shows "IAM_hookResource r' = Inr r' \<longleftrightarrow> \<not> IAM_wraps r"
proof (cases "IAM_wraps r")
  case True
  then obtain k where k: "wrapPolicy k r = Inr r'"
    and again: "\<And>x. type_res x = type_res r \<Longrightarrow> truthy (obj_get (attributes x) k)
                  \<Longrightarrow> IAM_hookResource x = wrapPolicy k x"
    using assms
    by (auto simp: IAM_wraps_def IAM_hookResource_def IAM_policyType_def)
  from wrapPolicy_twice [OF k] obtain r'' where "wrapPolicy k r' = Inr r''" "r'' \<noteq> r'"
    "type_res r' = type_res r" "truthy (obj_get (attributes r') k)"
    by blast
  with again [of r'] True show ?thesis by simp
next
  case False
  show ?thesis
  proof (cases "type_res r = ''aws_iam_instance_profile''")
    case True
    with False assms have "r' = r\<lparr>attributes := obj_delete ''roles'' (attributes r)\<rparr>"
      by (auto simp: IAM_wraps_def IAM_hookResource_def IAM_policyType_def)
    with True False show ?thesis
      by (simp add: IAM_hookResource_def IAM_policyType_def obj_delete_def delete_idem)
  next
    case np: False
    with False assms have "r' = r"
      by (auto simp: IAM_wraps_def IAM_hookResource_def split: if_splits)
    with False assms show ?thesis by simp
  qed
qed

lemma SNS_hookResource_twice:
  assumes "SNS_hookResource r = Inr r'"
  shows "SNS_hookResource r' = Inr r' \<longleftrightarrow> \<not> SNS_wraps r"
proof (cases "SNS_wraps r")
  case True
  with assms have k: "wrapPolicy ''policy'' r = Inr r'"
    by (simp add: SNS_wraps_def SNS_hookResource_def)
  from wrapPolicy_twice [OF k] obtain r'' where "wrapPolicy ''policy'' r' = Inr r''" "r'' \<noteq> r'"
    "type_res r' = type_res r" "truthy (obj_get (attributes r') ''policy'')"
    by blast
  with True show ?thesis by (simp add: SNS_wraps_def SNS_hookResource_def)
next
  case False
  with assms have "r' = r"
    by (auto simp: SNS_wraps_def SNS_hookResource_def split: if_splits)
  with False assms show ?thesis by simp
qed

lemma hookEach_twice:
  assumes step: "\<And>r r'. h r = Inr r' \<Longrightarrow> (h r' = Inr r' \<longleftrightarrow> \<not> W r)"
    and "hookEach h rs = Inr rs'"
  shows "hookEach h rs' = Inr rs' \<longleftrightarrow> list_all (\<lambda>r. \<not> W r) rs"
  using assms(2)
proof (induction rs arbitrary: rs')
  case Nil
  then show ?case by simp
next
  case (Cons r rs)
  from Cons.prems obtain r' rest where r': "h r = Inr r'" and rest: "hookEach h rs = Inr rest"
    and rs': "rs' = r' # rest"
    by (auto split: sum.splits)
  from Cons.IH [OF rest] step [OF r'] rs' show ?case
    by (auto split: sum.splits)
qed

text \<open>A second invocation leaves the resources of the first as they are exactly when
  the list held no policy for the hook to wrap.\<close>

lemma IAM_postConvertHook_twice:
  "IAM_postConvertHook rs = Inr rs' \<Longrightarrow>
     (IAM_postConvertHook rs' = Inr rs' \<longleftrightarrow> list_all (\<lambda>r. \<not> IAM_wraps r) rs)"
  unfolding IAM_postConvertHook_def by (rule hookEach_twice [OF IAM_hookResource_twice])

lemma SNS_postConvertHook_twice:
  "SNS_postConvertHook rs = Inr rs' \<Longrightarrow>
     (SNS_postConvertHook rs' = Inr rs' \<longleftrightarrow> list_all (\<lambda>r. \<not> SNS_wraps r) rs)"
  unfolding SNS_postConvertHook_def by (rule hookEach_twice [OF SNS_hookResource_twice])

lemma hookEach_total:
  "list_all (\<lambda>r. \<exists>r'. h r = Inr r') rs \<Longrightarrow> \<exists>rs'. hookEach h rs = Inr rs'"
  by (induction rs) auto

lemma IAM_hookResource_total: "\<not> IAM_wraps r \<Longrightarrow> \<exists>r'. IAM_hookResource r = Inr r'"
  by (auto simp: IAM_wraps_def IAM_hookResource_def)

lemma SNS_hookResource_total: "\<not> SNS_wraps r \<Longrightarrow> \<exists>r'. SNS_hookResource r = Inr r'"
  by (auto simp: SNS_wraps_def SNS_hookResource_def)

text \<open>
  C8. Claim: for every resource list, invoking a category's hook twice leaves the
  resources in exactly the state produced by invoking it once; no hook wraps a policy in
  a second verbatim block. The IAM and SNS hooks wrap whatever truthy policy they find,
  wrapped or not, so the claim holds on the lists that hold no policy for the hook to
  wrap, and fails on the others (\<open>IAM_postConvertHook_twice\<close>,
  \<open>SNS_postConvertHook_twice\<close>).
\<close>

theorem hook_twice_without_policy:
  "(list_all (\<lambda>r. \<not> IAM_wraps r) rs \<longrightarrow>
      (\<exists>rs'. IAM_postConvertHook rs = Inr rs' \<and> IAM_postConvertHook rs' = Inr rs'))
   \<and> (list_all (\<lambda>r. \<not> SNS_wraps r) rs \<longrightarrow>
      (\<exists>rs'. SNS_postConvertHook rs = Inr rs' \<and> SNS_postConvertHook rs' = Inr rs'))"
proof (intro conjI impI)
  assume no: "list_all (\<lambda>r. \<not> IAM_wraps r) rs"
  then have "list_all (\<lambda>r. \<exists>r'. IAM_hookResource r = Inr r') rs"
    by (simp add: list_all_iff IAM_hookResource_total)
  then obtain rs' where once: "IAM_postConvertHook rs = Inr rs'"
    unfolding IAM_postConvertHook_def using hookEach_total by blast
  with no IAM_postConvertHook_twice [OF once]
  show "\<exists>rs'. IAM_postConvertHook rs = Inr rs' \<and> IAM_postConvertHook rs' = Inr rs'"
    by blast
next
  assume no: "list_all (\<lambda>r. \<not> SNS_wraps r) rs"
  then have "list_all (\<lambda>r. \<exists>r'. SNS_hookResource r = Inr r') rs"
    by (simp add: list_all_iff SNS_hookResource_total)
  then obtain rs' where once: "SNS_postConvertHook rs = Inr rs'"
    unfolding SNS_postConvertHook_def using hookEach_total by blast
  with no SNS_postConvertHook_twice [OF once]
  show "\<exists>rs'. SNS_postConvertHook rs = Inr rs' \<and> SNS_postConvertHook rs' = Inr rs'"
    by blast
qed

theorem hook_twice_without_policy_witness:
  "list_all (\<lambda>r. \<not> IAM_wraps r)
     [\<lparr>id_res = ''web'', type_res = ''aws_iam_instance_profile'', name_res = ''web'',
       provider = ''aws'', attributes = [(''name'', Str ''web''), (''roles'', Arr [Str ''app''])],
       dependencies = None, ignoreKeys = None, allowEmptyValues = None,
       additionalFields = None\<rparr>]
   \<and> IAM_postConvertHook
       [\<lparr>id_res = ''web'', type_res = ''aws_iam_instance_profile'', name_res = ''web'',
         provider = ''aws'', attributes = [(''name'', Str ''web''), (''roles'', Arr [Str ''app''])],
         dependencies = None, ignoreKeys = None, allowEmptyValues = None,
         additionalFields = None\<rparr>] =
     Inr [\<lparr>id_res = ''web'', type_res = ''aws_iam_instance_profile'', name_res = ''web'',
           provider = ''aws'', attributes = [(''name'', Str ''web'')],
           dependencies = None, ignoreKeys = None, allowEmptyValues = None,
           additionalFields = None\<rparr>]
   \<and> IAM_postConvertHook
       [\<lparr>id_res = ''web'', type_res = ''aws_iam_instance_profile'', name_res = ''web'',
         provider = ''aws'', attributes = [(''name'', Str ''web'')],
         dependencies = None, ignoreKeys = None, allowEmptyValues = None,
         additionalFields = None\<rparr>] =
     Inr [\<lparr>id_res = ''web'', type_res = ''aws_iam_instance_profile'', name_res = ''web'',
           provider = ''aws'', attributes = [(''name'', Str ''web'')],
           dependencies = None, ignoreKeys = None, allowEmptyValues = None,
           additionalFields = None\<rparr>]
   \<and> list_all (\<lambda>r. \<not> SNS_wraps r)
       [\<lparr>id_res = ''arn:aws:sns:eu-west-1:1:alerts'', type_res = ''aws_sns_topic'',
         name_res = ''alerts'', provider = ''aws'', attributes = [(''name'', Str ''alerts'')],
         dependencies = None, ignoreKeys = None, allowEmptyValues = None,
         additionalFields = None\<rparr>]
   \<and> SNS_postConvertHook
       [\<lparr>id_res = ''arn:aws:sns:eu-west-1:1:alerts'', type_res = ''aws_sns_topic'',
         name_res = ''alerts'', provider = ''aws'', attributes = [(''name'', Str ''alerts'')],
         dependencies = None, ignoreKeys = None, allowEmptyValues = None,
         additionalFields = None\<rparr>] =
     Inr [\<lparr>id_res = ''arn:aws:sns:eu-west-1:1:alerts'', type_res = ''aws_sns_topic'',
           name_res = ''alerts'', provider = ''aws'', attributes = [(''name'', Str ''alerts'')],
           dependencies = None, ignoreKeys = None, allowEmptyValues = None,
           additionalFields = None\<rparr>]"
    (is "list_all ?ni ?iam \<and> IAM_postConvertHook ?iam = Inr ?iam' \<and> ?again
         \<and> list_all ?ns ?sns \<and> ?sns_once")
proof -
  have i: "list_all ?ni ?iam" and s: "list_all ?ns ?sns"
    by code_simp+
  have once: "IAM_postConvertHook ?iam = Inr ?iam'" and sns_once: ?sns_once
    by code_simp+
  from hook_twice_without_policy [of ?iam] i once have ?again
    by auto
  with i s once sns_once show ?thesis by blast
qed

theorem hook_twice_counterexample:
  "IAM_postConvertHook
     [\<lparr>id_res = ''app'', type_res = ''aws_iam_role'', name_res = ''app'', provider = ''aws'',
       attributes = [(''name'', Str ''app''), (''assume_role_policy'', Str ''{}'')],
       dependencies = None, ignoreKeys = None, allowEmptyValues = None,
       additionalFields = None\<rparr>] =
   Inr [\<lparr>id_res = ''app'', type_res = ''aws_iam_role'', name_res = ''app'', provider = ''aws'',
         attributes = [(''name'', Str ''app''),
                       (''assume_role_policy'', Str ''<<POLICY\<newline>{}\<newline>POLICY'')],
         dependencies = None, ignoreKeys = None, allowEmptyValues = None,
         additionalFields = None\<rparr>]
   \<and> IAM_postConvertHook
       [\<lparr>id_res = ''app'', type_res = ''aws_iam_role'', name_res = ''app'', provider = ''aws'',
         attributes = [(''name'', Str ''app''),
                       (''assume_role_policy'', Str ''<<POLICY\<newline>{}\<newline>POLICY'')],
         dependencies = None, ignoreKeys = None, allowEmptyValues = None,
         additionalFields = None\<rparr>] =
     Inr [\<lparr>id_res = ''app'', type_res = ''aws_iam_role'', name_res = ''app'', provider = ''aws'',
           attributes = [(''name'', Str ''app''),
                         (''assume_role_policy'',
                          Str ''<<POLICY\<newline><<POLICY\<newline>{}\<newline>POLICY\<newline>POLICY'')],
           dependencies = None, ignoreKeys = None, allowEmptyValues = None,
           additionalFields = None\<rparr>]
   \<and> ''<<POLICY\<newline><<POLICY\<newline>{}\<newline>POLICY\<newline>POLICY'' \<noteq> ''<<POLICY\<newline>{}\<newline>POLICY''"
  by code_simp

end
